theory Spec2Isabelle
  imports Complex_Main
begin

section \<open>Data model of \<open>material_layer.py\<close>\<close>

text \<open>
  The module defines two property groups, \<open>MaterialLayerRef\<close> and \<open>MaterialLayer\<close>.
  Python exceptions are values of the type \<open>error\<close>; a method that mutates its object
  returns the object as the call leaves it, also when it raises.
\<close>

datatype error =
  RuntimeError | ValueError | TypeError | AttributeError | AssertionError
  | RecursionError | IndexError

text \<open>
  \<open>MaterialLayerRef\<close>: the \<open>name\<close> property holds the identifier of the referenced
  layer, the custom property \<open>_layer_stack_id\<close> the identifier of its stack.
\<close>

record material_layer_ref =
  ref_name :: string
  layer_stack_id :: string

text \<open>
  Modelled from the spec: \<open>Channel\<close> and \<open>BasicChannel\<close> live in \<open>channel.py\<close>, which
  is not part of the sources at hand. A channel is a named, typed output slot with an
  enabled flag and a baked state; \<open>socket_type_bl_enum\<close> is the type a graph output
  for the channel carries.
\<close>

record channel =
  ch_name :: string
  ch_enabled :: bool
  socket_type :: string
  socket_type_bl_enum :: string
  ch_is_baked :: bool

text \<open>
  An output of the layer's node tree (\<open>NodeSocketInterface\<close>), with the attributes
  \<open>_ensure_node_tree_output\<close> writes. \<open>value_range\<close> is \<open>None\<close> while the host's
  own bounds apply.
\<close>

record socket =
  sock_name :: string
  sock_type :: string
  hide_value :: bool
  value_range :: "(real \<times> real) option"
  default_value :: "real list option"

record graph_node =
  node_name :: string
  node_label :: string
  node_idname :: string

record node_tree =
  nt_name :: string
  outputs :: "socket list"
  nodes :: "graph_node list"

text \<open>The preview material; only its name is tracked, its shader graph belongs to the host.\<close>

record material =
  ma_name :: string

text \<open>
  \<open>MaterialLayer\<close>, one field for each stored property. \<open>is_initialized\<close> has a getter
  only and is a function of \<open>identifier\<close>. Pointer properties are options; images and
  node masks are handles.
\<close>

record material_layer =
  name :: string
  "identifier" :: string
  enabled :: bool
  opacity :: real
  layer_type :: string
  channels :: "channel list"
  active_channel_index :: int
  preview_material :: "material option"
  node_tree :: "node_tree option"
  node_mask :: "nat option"
  image_ptr :: "nat option"
  image_channel :: int
  is_baked :: bool
  parent :: material_layer_ref
  children :: "material_layer_ref list"

text \<open>The collection of layer slots of a layer stack, as \<open>layer_stack.layers\<close>.\<close>

record layer_stack =
  layers :: "material_layer list"

definition VALID_LAYER_TYPES :: "string set" where
  "VALID_LAYER_TYPES = {''MATERIAL_PAINT'', ''MATERIAL_FILL''}"

text \<open>The property defaults: the state of a slot that was never initialized.\<close>

definition empty_ref :: material_layer_ref where
  "empty_ref = \<lparr>ref_name = '''', layer_stack_id = ''''\<rparr>"

definition default_layer :: material_layer where
  "default_layer =
     \<lparr>name = ''Layer'', identifier = '''', enabled = True, opacity = 1,
      layer_type = ''MATERIAL_PAINT'', channels = [], active_channel_index = 0,
      preview_material = None, node_tree = None, node_mask = None,
      image_ptr = None, image_channel = - 1, is_baked = False,
      parent = empty_ref, children = []\<rparr>"

subsection \<open>Truth values and equality\<close>

text \<open>\<open>MaterialLayerRef.__bool__\<close>.\<close>

definition ref_bool :: "material_layer_ref \<Rightarrow> bool" where
  "ref_bool r = (ref_name r \<noteq> '''')"

text \<open>The getter of \<open>is_initialized\<close>, which is also \<open>MaterialLayer.__bool__\<close>.\<close>

definition is_initialized :: "material_layer \<Rightarrow> bool" where
  "is_initialized l = (identifier l \<noteq> '''')"

text \<open>\<open>MaterialLayer.__eq__\<close> and \<open>__ne__\<close> with another \<open>MaterialLayer\<close> as operand.\<close>

definition layer_eq :: "material_layer \<Rightarrow> material_layer \<Rightarrow> bool" where
  "layer_eq self other = (identifier other = identifier self)"

definition layer_ne :: "material_layer \<Rightarrow> material_layer \<Rightarrow> bool" where
  "layer_ne self other = (\<not> layer_eq self other)"

text \<open>\<open>MaterialLayerRef.__eq__\<close> with a \<open>MaterialLayer\<close> as operand.\<close>

definition ref_eq_layer :: "material_layer_ref \<Rightarrow> material_layer \<Rightarrow> bool" where
  "ref_eq_layer r other = (if ref_name r = '''' then False else identifier other = ref_name r)"

text \<open>\<open>MaterialLayerRef.set\<close>; the stack identifier is passed in for \<open>layer.layer_stack.identifier\<close>.\<close>

definition ref_set :: "material_layer_ref \<Rightarrow> (material_layer \<times> string) option \<Rightarrow> material_layer_ref" where
  "ref_set r arg =
     (case arg of
        None \<Rightarrow> r\<lparr>ref_name := '''', layer_stack_id := ''''\<rparr>
      | Some (layer, stack_identifier) \<Rightarrow>
          r\<lparr>ref_name := identifier layer, layer_stack_id := stack_identifier\<rparr>)"

text \<open>
  Modelled from the spec: \<open>LayerStack.get_layer_by_id\<close> is defined with the layer stack,
  outside the sources at hand. It looks the layer up by identifier inside the stack and
  gives \<open>None\<close> when the stack holds no such identifier. The index of the slot is
  returned with it, since callers mutate the layer they get.
\<close>

fun find_layer :: "string \<Rightarrow> material_layer list \<Rightarrow> nat \<Rightarrow> (nat \<times> material_layer) option" where
  "find_layer ident [] k = None"
| "find_layer ident (l # ls) k =
     (if identifier l = ident then Some (k, l) else find_layer ident ls (Suc k))"

definition get_layer_by_id :: "layer_stack \<Rightarrow> string \<Rightarrow> (nat \<times> material_layer) option" where
  "get_layer_by_id stk ident = find_layer ident (layers stk) 0"

text \<open>
  \<open>MaterialLayerRef.resolve\<close>: an empty reference raises, otherwise the stack is asked.
  The stack the reference belongs to (its \<open>layer_stack\<close> property) is the parameter.
\<close>

definition resolve :: "layer_stack \<Rightarrow> material_layer_ref \<Rightarrow> error + (nat \<times> material_layer) option" where
  "resolve stk r =
     (if ref_name r = '''' then Inl RuntimeError else Inr (get_layer_by_id stk (ref_name r)))"

section \<open>Channels of a layer\<close>

text \<open>
  What the collaborators of the module answer during one call: whether
  \<open>get_layer_stack_from_prop\<close> finds a stack for the layer, the token \<open>unique_name_in\<close>
  draws, the \<open>show_previews\<close> preference, the image and image channel the image manager
  hands out, the stack's default value for a channel, and the name of the stack's material.
\<close>

record env =
  attached :: bool
  new_identifier :: string
  show_previews :: bool
  allocated_image :: "nat \<times> int"
  channel_default_value :: "channel \<Rightarrow> real list option"
  material_name :: string

text \<open>An argument that is a \<open>BasicChannel\<close> instance, or some other object.\<close>

datatype channel_arg = BasicChannel channel | NotAChannel

datatype channel_name_arg = NameStr string | NameChannel channel | NameOther

text \<open>\<open>get\<close>, \<open>find\<close> and \<open>remove\<close> of a collection property, keyed by the items' names.\<close>

definition channels_get :: "channel list \<Rightarrow> string \<Rightarrow> channel option" where
  "channels_get chs nm = find (\<lambda>c. ch_name c = nm) chs"

fun channels_find :: "channel list \<Rightarrow> string \<Rightarrow> int" where
  "channels_find [] nm = - 1"
| "channels_find (c # cs) nm =
     (if ch_name c = nm then 0
      else (let k = channels_find cs nm in if k < 0 then - 1 else k + 1))"

definition collection_remove :: "'a list \<Rightarrow> nat \<Rightarrow> 'a list" where
  "collection_remove xs k = take k xs @ drop (Suc k) xs"

definition outputs_get :: "socket list \<Rightarrow> string \<Rightarrow> socket option" where
  "outputs_get outs nm = find (\<lambda>s. sock_name s = nm) outs"

text \<open>Writing back the output that \<open>outputs.get\<close> returned: the first one of that name.\<close>

fun outputs_replace :: "socket list \<Rightarrow> string \<Rightarrow> socket \<Rightarrow> socket list" where
  "outputs_replace [] nm new = []"
| "outputs_replace (s # ss) nm new =
     (if sock_name s = nm then new # ss else s # outputs_replace ss nm new)"

text \<open>\<open>outputs.remove(outputs[channel_name])\<close>: the first output of that name goes.\<close>

fun outputs_remove :: "socket list \<Rightarrow> string \<Rightarrow> socket list" where
  "outputs_remove [] nm = []"
| "outputs_remove (s # ss) nm =
     (if sock_name s = nm then ss else s # outputs_remove ss nm)"

text \<open>\<open>node_tree.outputs.new(name, type)\<close>: a new output of the channel's type.\<close>

definition outputs_new :: "channel \<Rightarrow> socket" where
  "outputs_new ch =
     \<lparr>sock_name = ch_name ch, sock_type = socket_type_bl_enum ch, hide_value = False,
      value_range = None, default_value = None\<rparr>"

text \<open>
  \<open>_ensure_node_tree_output\<close>, in two parts. The second half of the method sets the
  attributes of the output it found or created: the type-specific ones, then the default
  value \<open>layer_stack.get_channel_default_value\<close> gives, if any.
  \<open>group_output_link_default\<close> works on the links of the host's graph and leaves the
  outputs as they are.
\<close>

definition configure_output :: "env \<Rightarrow> channel \<Rightarrow> socket \<Rightarrow> socket" where
  "configure_output e ch output =
     (let output = (if socket_type ch = ''VECTOR'' then output\<lparr>hide_value := True\<rparr>
                    else if socket_type ch = ''FLOAT_FACTOR''
                    then output\<lparr>value_range := Some (0, 1)\<rparr>
                    else output)
      in case channel_default_value e ch of
           None \<Rightarrow> output
         | Some v \<Rightarrow> output\<lparr>default_value := Some v\<rparr>)"

text \<open>
  The first half looks the output up by the channel's name, retypes it when its type is
  wrong, and creates it when there is none. Reading \<open>self.node_tree.outputs\<close> raises
  when the layer has no node tree.
\<close>

definition ensure_node_tree_output :: "env \<Rightarrow> material_layer \<Rightarrow> channel \<Rightarrow> error + material_layer" where
  "ensure_node_tree_output e self ch =
     (case node_tree self of
        None \<Rightarrow> Inl AttributeError
      | Some nt \<Rightarrow>
          (case outputs_get (outputs nt) (ch_name ch) of
             Some output \<Rightarrow>
               (let output = (if sock_type output \<noteq> socket_type_bl_enum ch
                              then output\<lparr>sock_type := socket_type_bl_enum ch\<rparr>
                              else output)
                in Inr (self\<lparr>node_tree := Some (nt\<lparr>outputs :=
                          outputs_replace (outputs nt) (ch_name ch) (configure_output e ch output)\<rparr>)\<rparr>))
           | None \<Rightarrow>
               Inr (self\<lparr>node_tree := Some (nt\<lparr>outputs :=
                      outputs nt @ [configure_output e ch (outputs_new ch)]\<rparr>)\<rparr>)))"

text \<open>
  Modelled from the spec: \<open>Channel.init_from_channel\<close> is defined in \<open>channel.py\<close>; the
  added channel is a copy initialized from the template.
\<close>

definition init_from_channel :: "channel \<Rightarrow> channel" where
  "init_from_channel ch = ch"

text \<open>
  \<open>_refresh_preview_material\<close> relinks the shader graph of the preview material, which
  the host owns. The pointer and the name of the material stay as they are on every path.
\<close>

definition refresh_preview_material :: "material_layer \<Rightarrow> material_layer" where
  "refresh_preview_material self = self"

definition duplicate_warning :: "material_layer \<Rightarrow> channel \<Rightarrow> string" where
  "duplicate_warning self ch =
     ''Channel with name '' @ ch_name ch @ '' already exists in layer '' @ name self"

text \<open>
  \<open>add_channel\<close>: the value returned or the exception raised, the warnings issued, and
  the layer after the call.
\<close>

definition add_channel ::
  "env \<Rightarrow> material_layer \<Rightarrow> channel_arg \<Rightarrow> (error + channel) \<times> string list \<times> material_layer" where
  "add_channel e self arg =
     (case arg of
        NotAChannel \<Rightarrow> (Inl TypeError, [], self)
      | BasicChannel ch \<Rightarrow>
          (case channels_get (channels self) (ch_name ch) of
             Some existing \<Rightarrow> (Inr existing, [duplicate_warning self ch], self)
           | None \<Rightarrow>
               (let added = init_from_channel ch;
                    self1 = self\<lparr>channels := channels self @ [added]\<rparr>
                in case ensure_node_tree_output e self1 ch of
                     Inl err \<Rightarrow> (Inl err, [], self1)
                   | Inr self2 \<Rightarrow> (Inr added, [], refresh_preview_material self2))))"

text \<open>
  \<open>remove_channel\<close>. The channel leaves the list before the node tree is read, so a layer
  without a node tree raises with the channel already gone. The index that is assigned at
  the end is never negative, so the lower bound of the property (\<open>min=0\<close>) does not change
  it.
\<close>

definition remove_channel :: "material_layer \<Rightarrow> channel_name_arg \<Rightarrow> error option \<times> material_layer" where
  "remove_channel self arg =
     (case (case arg of NameChannel c \<Rightarrow> Some (ch_name c) | NameStr s \<Rightarrow> Some s | NameOther \<Rightarrow> None) of
        None \<Rightarrow> (Some TypeError, self)
      | Some channel_name \<Rightarrow>
          (case channels_get (channels self) channel_name of
             None \<Rightarrow> (Some ValueError, self)
           | Some channel \<Rightarrow>
               (let ch_idx = channels_find (channels self) channel_name
                in if \<not> ch_idx \<ge> 0 then (Some AssertionError, self)
                   else
                     (let self1 = self\<lparr>channels := collection_remove (channels self) (nat ch_idx)\<rparr>
                      in case node_tree self1 of
                           None \<Rightarrow> (Some AttributeError, self1)
                         | Some nt \<Rightarrow>
                             (let self2 =
                                    (if outputs_get (outputs nt) channel_name \<noteq> None
                                     then self1\<lparr>node_tree :=
                                            Some (nt\<lparr>outputs := outputs_remove (outputs nt) channel_name\<rparr>)\<rparr>
                                     else self1);
                                  active_index = active_channel_index self2;
                                  active_index = (if ch_idx < active_index then active_index - 1
                                                  else active_index);
                                  active_index = max (min active_index (int (length (channels self2)) - 1)) 0
                              in (None, self2\<lparr>active_channel_index := active_index\<rparr>))))))"

text \<open>\<open>clear_channels\<close>: the names are listed first, then removed one by one.\<close>

fun remove_channels :: "material_layer \<Rightarrow> string list \<Rightarrow> error option \<times> material_layer" where
  "remove_channels self [] = (None, self)"
| "remove_channels self (nm # nms) =
     (case remove_channel self (NameStr nm) of
        (Some err, self1) \<Rightarrow> (Some err, self1)
      | (None, self1) \<Rightarrow> remove_channels self1 nms)"

definition clear_channels :: "material_layer \<Rightarrow> error option \<times> material_layer" where
  "clear_channels self = remove_channels self (map ch_name (channels self))"

subsection \<open>Examples of layers\<close>

definition example_env :: env where
  "example_env =
     \<lparr>attached = True, new_identifier = ''ab12'', show_previews = False,
      allocated_image = (0, - 1), channel_default_value = (\<lambda>ch. None),
      material_name = ''Material''\<rparr>"

definition color_channel :: channel where
  "color_channel =
     \<lparr>ch_name = ''Color'', ch_enabled = True, socket_type = ''COLOR'',
      socket_type_bl_enum = ''RGBA'', ch_is_baked = False\<rparr>"

definition color_output :: socket where
  "color_output =
     \<lparr>sock_name = ''Color'', sock_type = ''RGBA'', hide_value = False,
      value_range = None, default_value = None\<rparr>"

definition live_layer :: material_layer where
  "live_layer =
     default_layer\<lparr>identifier := ''ab12'',
       node_tree := Some \<lparr>nt_name = ''.Layer'', outputs = [], nodes = []\<rparr>\<rparr>"

definition color_layer :: material_layer where
  "color_layer =
     default_layer\<lparr>identifier := ''ab12'', channels := [color_channel],
       node_tree := Some \<lparr>nt_name = ''.Layer'', outputs = [color_output], nodes = []\<rparr>\<rparr>"

definition stale_output_layer :: material_layer where
  "stale_output_layer =
     default_layer\<lparr>identifier := ''ab12'',
       node_tree := Some \<lparr>nt_name = ''.Layer'', outputs = [color_output], nodes = []\<rparr>\<rparr>"

subsection \<open>Adding and removing a channel\<close>

lemma channels_get_None: "channels_get chs nm = None \<longleftrightarrow> nm \<notin> ch_name ` set chs"
  by (auto simp: channels_get_def find_None_iff)

lemma channels_get_Some: "channels_get chs nm = Some c \<Longrightarrow> c \<in> set chs \<and> ch_name c = nm"
  by (auto simp: channels_get_def find_Some_iff)

lemma channels_get_append_new:
  "nm \<notin> ch_name ` set chs \<Longrightarrow> ch_name c = nm \<Longrightarrow> channels_get (chs @ [c]) nm = Some c"
  by (induction chs) (auto simp: channels_get_def)

lemma channels_find_append_new:
  "nm \<notin> ch_name ` set chs \<Longrightarrow> ch_name c = nm \<Longrightarrow> channels_find (chs @ [c]) nm = int (length chs)"
  by (induction chs) (auto simp: Let_def)

lemma collection_remove_last: "collection_remove (xs @ [x]) (length xs) = xs"
  by (simp add: collection_remove_def)

lemma outputs_get_None: "outputs_get outs nm = None \<longleftrightarrow> nm \<notin> sock_name ` set outs"
  by (auto simp: outputs_get_def find_None_iff)

lemma outputs_remove_append_new:
  "nm \<notin> sock_name ` set outs \<Longrightarrow> sock_name s = nm \<Longrightarrow> outputs_remove (outs @ [s]) nm = outs"
  by (induction outs) auto

lemma outputs_get_append_new:
  "sock_name s = nm \<Longrightarrow> outputs_get (outs @ [s]) nm \<noteq> None"
  by (simp add: outputs_get_None)

text \<open>
  Claim C7. \<open>add_channel\<close> with a channel whose name the layer already has does not
  raise: it returns the existing channel, issues the warning, and leaves the layer (channel
  list, node tree outputs and every other field) as it was.
\<close>

theorem add_channel_existing_name:
  assumes "ch_name ch \<in> ch_name ` set (channels self)"
  shows "\<exists>existing \<in> set (channels self). ch_name existing = ch_name ch
           \<and> add_channel e self (BasicChannel ch)
               = (Inr existing, [duplicate_warning self ch], self)"
proof -
  from assms obtain existing where ex: "channels_get (channels self) (ch_name ch) = Some existing"
    using channels_get_None [of "channels self" "ch_name ch"] by (cases "channels_get (channels self) (ch_name ch)") auto
  then have "existing \<in> set (channels self)" "ch_name existing = ch_name ch"
    using channels_get_Some by blast+
  moreover have "add_channel e self (BasicChannel ch) = (Inr existing, [duplicate_warning self ch], self)"
    by (simp add: add_channel_def ex)
  ultimately show ?thesis by blast
qed

lemma sock_name_configure_output [simp]:
  "sock_name (configure_output e ch s) = sock_name s"
  by (simp add: configure_output_def Let_def split: option.split)

lemma ensure_output_new:
  assumes "node_tree self = Some nt" and "ch_name ch \<notin> sock_name ` set (outputs nt)"
  shows "ensure_node_tree_output e self ch
           = Inr (self\<lparr>node_tree := Some (nt\<lparr>outputs :=
                    outputs nt @ [configure_output e ch (outputs_new ch)]\<rparr>)\<rparr>)"
proof -
  have none: "outputs_get (outputs nt) (ch_name ch) = None"
    using assms(2) by (simp add: outputs_get_None)
  show ?thesis
    unfolding ensure_node_tree_output_def by (simp add: assms(1) none)
qed




theorem add_channel_existing_name_witness:
  "ch_name (color_channel\<lparr>ch_enabled := False\<rparr>) \<in> ch_name ` set (channels color_layer)
   \<and> add_channel example_env color_layer (BasicChannel (color_channel\<lparr>ch_enabled := False\<rparr>))
       = (Inr color_channel, [''Channel with name Color already exists in layer Layer''], color_layer)"
  using add_channel_existing_name [of "color_channel\<lparr>ch_enabled := False\<rparr>" color_layer example_env]
  by (simp add: color_layer_def color_channel_def duplicate_warning_def default_layer_def)

section \<open>Equality of layers\<close>

text \<open>
  Claim C9. Two layers compare equal exactly when their identifiers are equal. Hence two
  uninitialized layers (both identifiers empty) are equal, and an initialized layer is
  never equal to an uninitialized one.
\<close>

theorem layer_eq_by_identifier:
  "(layer_eq a b \<longleftrightarrow> identifier a = identifier b)
   \<and> (\<not> is_initialized a \<and> \<not> is_initialized b \<longrightarrow> layer_eq a b)
   \<and> (is_initialized a \<and> \<not> is_initialized b \<longrightarrow> \<not> layer_eq a b \<and> \<not> layer_eq b a)"
  by (auto simp: layer_eq_def is_initialized_def)

theorem layer_eq_by_identifier_witness:
  "\<not> is_initialized default_layer
   \<and> \<not> is_initialized (default_layer\<lparr>name := ''Other'', opacity := 0\<rparr>)
   \<and> layer_eq default_layer (default_layer\<lparr>name := ''Other'', opacity := 0\<rparr>)
   \<and> is_initialized (default_layer\<lparr>identifier := ''ab12''\<rparr>)
   \<and> \<not> layer_eq (default_layer\<lparr>identifier := ''ab12''\<rparr>) default_layer"
  using layer_eq_by_identifier [of default_layer "default_layer\<lparr>name := ''Other'', opacity := 0\<rparr>"]
    layer_eq_by_identifier [of "default_layer\<lparr>identifier := ''ab12''\<rparr>" default_layer]
  by (simp add: is_initialized_def default_layer_def)

section \<open>Names of layers\<close>

text \<open>Python's \<open>str\<close> of a natural number, and the format \<open>{n:02}\<close>: at least two digits.\<close>

definition digit_char :: "nat \<Rightarrow> char" where
  "digit_char d = char_of (48 + d)"

function decimal :: "nat \<Rightarrow> string" where
  "decimal n = (if n < 10 then [digit_char n] else decimal (n div 10) @ [digit_char (n mod 10)])"
  by pat_completeness auto
termination
  by (relation "measure id") auto

declare decimal.simps [simp del]

definition format_02 :: "nat \<Rightarrow> string" where
  "format_02 n = (if n < 10 then CHR ''0'' # decimal n else decimal n)"

definition suffixed :: "string \<Rightarrow> nat \<Rightarrow> string" where
  "suffixed basename n = basename @ ''.'' @ format_02 n"

text \<open>The value of a string of digits, to read a suffix back.\<close>

definition digits_value :: "string \<Rightarrow> nat" where
  "digits_value s = foldl (\<lambda>a c. 10 * a + (of_char c - 48)) 0 s"

lemma digits_value_snoc: "digits_value (s @ [c]) = 10 * digits_value s + (of_char c - 48)"
  by (simp add: digits_value_def)

lemma digit_char_value: "d < 10 \<Longrightarrow> of_char (digit_char d) - 48 = d"
  by (simp add: digit_char_def)

lemma digits_value_decimal: "digits_value (decimal n) = n"
proof (induction n rule: decimal.induct)
  case (1 n)
  show ?case
  proof (cases "n < 10")
    case True
    then show ?thesis
      by (subst decimal.simps) (simp add: digits_value_def digit_char_value)
  next
    case False
    with 1 have "digits_value (decimal (n div 10)) = n div 10" by simp
    with False show ?thesis
      by (subst decimal.simps) (simp add: digits_value_snoc digit_char_value)
  qed
qed

lemma digits_value_format_02: "digits_value (format_02 n) = n"
proof -
  have "digits_value (CHR ''0'' # s) = digits_value s" for s
    by (simp add: digits_value_def)
  then show ?thesis
    by (simp add: format_02_def digits_value_decimal)
qed

lemma inj_suffixed: "inj (suffixed basename)"
proof (rule injI)
  fix m n assume "suffixed basename m = suffixed basename n"
  then have "format_02 m = format_02 n" by (simp add: suffixed_def)
  then have "digits_value (format_02 m) = digits_value (format_02 n)" by simp
  then show "m = n" by (simp add: digits_value_format_02)
qed

lemma finite_taken_suffixes: "finite {k. n \<le> k \<and> suffixed basename k \<in> set names}"
proof -
  have "finite (suffixed basename -` set names)"
    using inj_suffixed by (intro finite_vimageI) auto
  then show ?thesis
    by (rule rev_finite_subset) auto
qed

text \<open>
  The loop of \<open>_get_unique_name\<close>: \<open>suffix_num\<close> counts upwards until a name is met
  that no item of \<open>layers\<close> has. \<open>names\<close> are the names of all slots of the stack.
\<close>

function first_free_name :: "string \<Rightarrow> string list \<Rightarrow> nat \<Rightarrow> string" where
  "first_free_name basename names suffix_num =
     (if suffixed basename suffix_num \<notin> set names then suffixed basename suffix_num
      else first_free_name basename names (Suc suffix_num))"
  by pat_completeness auto
termination
proof (relation "measure (\<lambda>(basename, names, n). card {k. n \<le> k \<and> suffixed basename k \<in> set names})")
  show "wf (measure (\<lambda>(basename, names, n). card {k. n \<le> k \<and> suffixed basename k \<in> set names}))"
    by simp
next
  fix basename :: string and names :: "string list" and suffix_num :: nat
  assume taken: "\<not> suffixed basename suffix_num \<notin> set names"
  have "suffix_num \<in> {k. suffix_num \<le> k \<and> suffixed basename k \<in> set names}"
       "suffix_num \<notin> {k. Suc suffix_num \<le> k \<and> suffixed basename k \<in> set names}"
    using taken by auto
  moreover have "{k. Suc suffix_num \<le> k \<and> suffixed basename k \<in> set names}
          \<subseteq> {k. suffix_num \<le> k \<and> suffixed basename k \<in> set names}"
    by auto
  ultimately have "{k. Suc suffix_num \<le> k \<and> suffixed basename k \<in> set names}
          \<subset> {k. suffix_num \<le> k \<and> suffixed basename k \<in> set names}"
    by blast
  then have "card {k. Suc suffix_num \<le> k \<and> suffixed basename k \<in> set names}
               < card {k. suffix_num \<le> k \<and> suffixed basename k \<in> set names}"
    by (rule psubset_card_mono [OF finite_taken_suffixes])
  then show "((basename, names, Suc suffix_num), (basename, names, suffix_num))
               \<in> measure (\<lambda>(basename, names, n). card {k. n \<le> k \<and> suffixed basename k \<in> set names})"
    by simp
qed

declare first_free_name.simps [simp del]

text \<open>
  \<open>_get_unique_name\<close>. \<open>same\<close> is another initialized layer of the same name; \<open>x != self\<close>
  is \<open>__ne__\<close>, a comparison of identifiers.
\<close>

definition get_unique_name :: "layer_stack \<Rightarrow> material_layer \<Rightarrow> string" where
  "get_unique_name stk self =
     (let same = find (\<lambda>x. name x = name self \<and> layer_ne x self \<and> is_initialized x) (layers stk)
      in if same \<noteq> None then first_free_name (name self) (map name (layers stk)) 1
         else name self)"

lemma first_free_name_not_taken: "first_free_name basename names n \<notin> set names"
proof (induction basename names n rule: first_free_name.induct)
  case (1 basename names suffix_num)
  then show ?case
    by (subst first_free_name.simps) simp
qed

lemma first_free_name_first:
  assumes "n \<le> m" and "\<forall>k. n \<le> k \<and> k < m \<longrightarrow> suffixed basename k \<in> set names"
    and "suffixed basename m \<notin> set names"
  shows "first_free_name basename names n = suffixed basename m"
  using assms
proof (induction "m - n" arbitrary: n)
  case 0
  then have "n = m" by simp
  with 0 show ?case by (subst first_free_name.simps) simp
next
  case (Suc d)
  then have "n < m" by simp
  with Suc.prems have taken: "suffixed basename n \<in> set names" by simp
  have "first_free_name basename names (Suc n) = suffixed basename m"
    using Suc.hyps Suc.prems \<open>n < m\<close> by (intro Suc.hyps(1)) auto
  with taken show ?case by (subst first_free_name.simps) simp
qed

text \<open>Writing a layer back into its slot of the stack.\<close>

definition put_layer :: "layer_stack \<Rightarrow> nat \<Rightarrow> material_layer \<Rightarrow> layer_stack" where
  "put_layer stk i l = stk\<lparr>layers := (layers stk)[i := l]\<rparr>"

text \<open>The property \<open>_node_tree_name\<close>.\<close>

definition node_tree_name :: "material_layer \<Rightarrow> string" where
  "node_tree_name self = ''.'' @ name self"

lemma find_same_None_after_rename:
  assumes "i < length ls" and "u \<notin> set (map name ls)"
  shows "find (\<lambda>x. name x = u \<and> layer_ne x ((ls ! i)\<lparr>name := u\<rparr>) \<and> is_initialized x)
           (ls[i := (ls ! i)\<lparr>name := u\<rparr>]) = None"
proof -
  have "\<not> (name x = u \<and> layer_ne x ((ls ! i)\<lparr>name := u\<rparr>) \<and> is_initialized x)"
    if "x \<in> set (ls[i := (ls ! i)\<lparr>name := u\<rparr>])" for x
  proof -
    from that have "x = (ls ! i)\<lparr>name := u\<rparr> \<or> x \<in> set ls"
      using set_update_subset_insert by fastforce
    then show ?thesis
    proof
      assume "x = (ls ! i)\<lparr>name := u\<rparr>"
      then show ?thesis by (simp add: layer_ne_def layer_eq_def)
    next
      assume "x \<in> set ls"
      with assms(2) show ?thesis by auto
    qed
  qed
  then show ?thesis by (simp add: find_None_iff)
qed

lemma get_unique_name_after_rename:
  assumes "i < length (layers stk)" and "u \<notin> set (map name (layers stk))"
  shows "get_unique_name (put_layer stk i ((layers stk ! i)\<lparr>name := u\<rparr>))
           ((layers stk ! i)\<lparr>name := u\<rparr>) = u"
  using find_same_None_after_rename [OF assms]
  by (simp add: get_unique_name_def put_layer_def)

text \<open>
  \<open>_update_name\<close>, the update callback of \<open>name\<close>. Assigning the unique name inside the
  callback runs the callback once more, on the renamed layer. The layer is the slot \<open>i\<close>
  of the stack.
\<close>

function update_name :: "layer_stack \<Rightarrow> nat \<Rightarrow> error option \<times> layer_stack" where
  "update_name stk i =
     (if \<not> i < length (layers stk) then (Some IndexError, stk)
      else
        (let self = layers stk ! i;
             unique_name = get_unique_name stk self
         in if unique_name \<noteq> name self
            then (if unique_name \<in> set (map name (layers stk)) then (Some AssertionError, stk)
                  else update_name (put_layer stk i (self\<lparr>name := unique_name\<rparr>)) i)
            else (case node_tree self of
                    None \<Rightarrow> (None, stk)
                  | Some nt \<Rightarrow>
                      (None, put_layer stk i
                               (self\<lparr>node_tree := Some (nt\<lparr>nt_name := node_tree_name self\<rparr>)\<rparr>)))))"
  by pat_completeness auto
termination
proof (relation "measure (\<lambda>(stk, i).
         if get_unique_name stk (layers stk ! i) = name (layers stk ! i) then 0 else 1)")
  show "wf (measure (\<lambda>(stk, i).
         if get_unique_name stk (layers stk ! i) = name (layers stk ! i) then 0 else (1::nat)))"
    by simp
next
  fix stk :: layer_stack and i :: nat and self unique_name
  assume i: "\<not> \<not> i < length (layers stk)"
    and self: "self = layers stk ! i"
    and u: "unique_name = get_unique_name stk self"
    and changed: "unique_name \<noteq> name self"
    and free: "unique_name \<notin> set (map name (layers stk))"
  have "get_unique_name (put_layer stk i (self\<lparr>name := unique_name\<rparr>)) (self\<lparr>name := unique_name\<rparr>)
          = unique_name"
    unfolding self using i free by (intro get_unique_name_after_rename) auto
  moreover have "layers (put_layer stk i (self\<lparr>name := unique_name\<rparr>)) ! i = self\<lparr>name := unique_name\<rparr>"
    using i by (simp add: put_layer_def)
  ultimately show "((put_layer stk i (self\<lparr>name := unique_name\<rparr>), i), (stk, i))
          \<in> measure (\<lambda>(stk, i).
               if get_unique_name stk (layers stk ! i) = name (layers stk ! i) then 0 else 1)"
    using changed u self by simp
qed

declare update_name.simps [simp del]

text \<open>The assignment \<open>self.name = value\<close>: the property is set, then the callback runs.\<close>

definition set_name :: "layer_stack \<Rightarrow> nat \<Rightarrow> string \<Rightarrow> error option \<times> layer_stack" where
  "set_name stk i value = update_name (put_layer stk i ((layers stk ! i)\<lparr>name := value\<rparr>)) i"

text \<open>What the callback leaves in the slot once the name \<open>u\<close> is settled.\<close>

definition renamed :: "material_layer \<Rightarrow> string \<Rightarrow> material_layer" where
  "renamed self u =
     self\<lparr>name := u, node_tree := map_option (\<lambda>nt. nt\<lparr>nt_name := ''.'' @ u\<rparr>) (node_tree self)\<rparr>"

lemma layers_put_layer [simp]: "layers (put_layer stk i l) = (layers stk)[i := l]"
  by (simp add: put_layer_def)

lemma put_layer_twice [simp]: "put_layer (put_layer stk i l) i l' = put_layer stk i l'"
  by (simp add: put_layer_def)

lemma put_layer_same: "i < length (layers stk) \<Longrightarrow> l = layers stk ! i \<Longrightarrow> put_layer stk i l = stk"
  by (simp add: put_layer_def)

lemma get_unique_name_cases:
  "get_unique_name stk self = name self
   \<or> get_unique_name stk self = first_free_name (name self) (map name (layers stk)) 1"
  by (simp add: get_unique_name_def Let_def)

lemma update_name_settled:
  assumes i: "i < length (layers stk)"
    and u: "get_unique_name stk (layers stk ! i) = name (layers stk ! i)"
  shows "update_name stk i = (None, put_layer stk i (renamed (layers stk ! i) (name (layers stk ! i))))"
proof (cases "node_tree (layers stk ! i)")
  case None
  have "l\<lparr>node_tree := None\<rparr> = l" if "node_tree l = None" for l :: material_layer
    using that by (cases l) simp
  then have "renamed (layers stk ! i) (name (layers stk ! i)) = layers stk ! i"
    by (simp add: renamed_def None)
  then have "put_layer stk i (renamed (layers stk ! i) (name (layers stk ! i))) = stk"
    using i by (simp add: put_layer_same)
  moreover have "update_name stk i = (None, stk)"
    using i u None by (subst update_name.simps) (simp add: Let_def)
  ultimately show ?thesis by simp
next
  case (Some nt)
  show ?thesis
    using i u Some
    by (subst update_name.simps) (simp add: Let_def renamed_def node_tree_name_def)
qed

lemma update_name_eq:
  assumes i: "i < length (layers stk)"
  shows "update_name stk i
           = (None, put_layer stk i (renamed (layers stk ! i) (get_unique_name stk (layers stk ! i))))"
proof (cases "get_unique_name stk (layers stk ! i) = name (layers stk ! i)")
  case True
  with update_name_settled [OF i True] show ?thesis by simp
next
  case False
  define self where "self = layers stk ! i"
  define u where "u = get_unique_name stk self"
  from False have "u = first_free_name (name self) (map name (layers stk)) 1"
    using get_unique_name_cases [of stk self] by (auto simp: u_def self_def)
  then have free: "u \<notin> set (map name (layers stk))"
    using first_free_name_not_taken [of "name self" "map name (layers stk)" 1] by simp
  define stk1 where "stk1 = put_layer stk i (self\<lparr>name := u\<rparr>)"
  have i1: "i < length (layers stk1)" and self1: "layers stk1 ! i = self\<lparr>name := u\<rparr>"
    using i by (simp_all add: stk1_def)
  have "get_unique_name stk1 (self\<lparr>name := u\<rparr>) = u"
    unfolding stk1_def self_def using i free by (intro get_unique_name_after_rename) auto
  then have settled: "get_unique_name stk1 (layers stk1 ! i) = name (layers stk1 ! i)"
    by (simp add: self1)
  have "update_name stk i = update_name stk1 i"
    using i False free
    by (subst update_name.simps) (simp add: Let_def u_def [symmetric] self_def [symmetric] stk1_def)
  also have "\<dots> = (None, put_layer stk1 i (renamed (layers stk1 ! i) (name (layers stk1 ! i))))"
    using update_name_settled [OF i1 settled] .
  also have "put_layer stk1 i (renamed (layers stk1 ! i) (name (layers stk1 ! i)))
               = put_layer stk i (renamed self u)"
    unfolding self1 by (simp add: stk1_def renamed_def)
  finally show ?thesis by (simp add: u_def self_def)
qed

lemma set_name_eq:
  assumes i: "i < length (layers stk)"
  shows "set_name stk i v
           = (None, put_layer stk i
                (renamed (layers stk ! i)
                   (get_unique_name (put_layer stk i ((layers stk ! i)\<lparr>name := v\<rparr>))
                      ((layers stk ! i)\<lparr>name := v\<rparr>))))"
proof -
  have "i < length (layers (put_layer stk i ((layers stk ! i)\<lparr>name := v\<rparr>)))"
    using i by simp
  from update_name_eq [OF this] show ?thesis
    using i by (simp add: set_name_def renamed_def)
qed

lemma format_02_1: "format_02 1 = ''01''"
  by code_simp

lemma format_02_2: "format_02 2 = ''02''"
  by code_simp

lemma suffixed_neq_base: "suffixed basename k \<noteq> basename"
  by (simp add: suffixed_def)

lemma set_list_update_others:
  "i < length ls \<Longrightarrow> set (ls[i := l]) = insert l (set (collection_remove ls i))"
  by (simp add: collection_remove_def upd_conv_take_nth_drop Cons_nth_drop_Suc [symmetric])

lemma collection_remove_list_update [simp]:
  "collection_remove (ls[i := l]) i = collection_remove ls i"
  by (simp add: collection_remove_def)

lemma name_renamed [simp]: "name (renamed self u) = u"
  by (simp add: renamed_def)

text \<open>
  \<open>_get_unique_name\<close> for the layer in slot \<open>i\<close> once it carries the name \<open>base\<close>, in
  terms of the other slots of the stack.
\<close>

lemma get_unique_name_plain:
  assumes i: "i < length (layers stk)"
    and no_same: "\<forall>x\<in>set (collection_remove (layers stk) i).
            name x = base \<and> is_initialized x \<longrightarrow> identifier x = identifier (layers stk ! i)"
  shows "get_unique_name (put_layer stk i ((layers stk ! i)\<lparr>name := base\<rparr>))
           ((layers stk ! i)\<lparr>name := base\<rparr>) = base"
proof -
  have "find (\<lambda>x. name x = base \<and> layer_ne x ((layers stk ! i)\<lparr>name := base\<rparr>) \<and> is_initialized x)
          ((layers stk)[i := (layers stk ! i)\<lparr>name := base\<rparr>]) = None"
  proof -
    have "\<not> (name x = base \<and> layer_ne x ((layers stk ! i)\<lparr>name := base\<rparr>) \<and> is_initialized x)"
      if "x \<in> set ((layers stk)[i := (layers stk ! i)\<lparr>name := base\<rparr>])" for x
    proof -
      from that consider "x = (layers stk ! i)\<lparr>name := base\<rparr>"
        | "x \<in> set (collection_remove (layers stk) i)"
        by (auto simp: set_list_update_others [OF i])
      then show ?thesis
      proof cases
        case 1
        then show ?thesis by (simp add: layer_ne_def layer_eq_def)
      next
        case 2
        with no_same show ?thesis by (auto simp: layer_ne_def layer_eq_def)
      qed
    qed
    then show ?thesis by (simp add: find_None_iff)
  qed
  then show ?thesis
    by (simp add: get_unique_name_def)
qed

lemma get_unique_name_collision:
  assumes i: "i < length (layers stk)"
    and same: "\<exists>x\<in>set (collection_remove (layers stk) i).
            name x = base \<and> is_initialized x \<and> identifier x \<noteq> identifier (layers stk ! i)"
  shows "get_unique_name (put_layer stk i ((layers stk ! i)\<lparr>name := base\<rparr>))
           ((layers stk ! i)\<lparr>name := base\<rparr>)
         = first_free_name base
             (map name ((layers stk)[i := (layers stk ! i)\<lparr>name := base\<rparr>])) 1"
proof -
  from same obtain x where x: "x \<in> set (collection_remove (layers stk) i)"
    "name x = base" "is_initialized x" "identifier x \<noteq> identifier (layers stk ! i)"
    by blast
  from x(1) have "x \<in> set ((layers stk)[i := (layers stk ! i)\<lparr>name := base\<rparr>])"
    by (simp add: set_list_update_others [OF i])
  moreover from x have
    "name x = base \<and> layer_ne x ((layers stk ! i)\<lparr>name := base\<rparr>) \<and> is_initialized x"
    by (simp add: layer_ne_def layer_eq_def)
  ultimately have "find (\<lambda>x. name x = base \<and> layer_ne x ((layers stk ! i)\<lparr>name := base\<rparr>) \<and> is_initialized x)
          ((layers stk)[i := (layers stk ! i)\<lparr>name := base\<rparr>]) \<noteq> None"
    by (auto simp: find_None_iff)
  then show ?thesis
    by (simp add: get_unique_name_def)
qed

lemma names_after_assignment:
  "i < length ls \<Longrightarrow>
   set (map name (ls[i := (ls ! i)\<lparr>name := base\<rparr>])) = insert base (name ` set (collection_remove ls i))"
  by (simp add: set_list_update_others)

text \<open>
  Claim C5. Giving the layer in slot \<open>i\<close> the name \<open>base\<close> (at initialization or by
  renaming) never fails and touches no other slot. If the only other slots of that name
  are uninitialized, the layer keeps the plain name. If another initialized layer has the
  name, the layer gets \<open>base.NN\<close> for the first number from 1 whose name is free, a name
  that no other slot has: \<open>base.01\<close> first, then \<open>base.02\<close>, with two digits.
\<close>

theorem set_name_unique_suffix:
  assumes i: "i < length (layers stk)"
  shows "\<exists>stk'. set_name stk i base = (None, stk')
           \<and> length (layers stk') = length (layers stk)
           \<and> collection_remove (layers stk') i = collection_remove (layers stk) i
           \<and> ((\<forall>x\<in>set (collection_remove (layers stk) i).
                   name x = base \<and> is_initialized x \<longrightarrow> identifier x = identifier (layers stk ! i))
                \<longrightarrow> name (layers stk' ! i) = base)
           \<and> ((\<exists>x\<in>set (collection_remove (layers stk) i).
                   name x = base \<and> is_initialized x \<and> identifier x \<noteq> identifier (layers stk ! i))
                \<longrightarrow> name (layers stk' ! i) \<notin> name ` set (collection_remove (layers stk) i)
                    \<and> name (layers stk' ! i) \<noteq> base
                    \<and> (\<forall>m\<ge>1. (\<forall>k. 1 \<le> k \<and> k < m \<longrightarrow>
                                  suffixed base k \<in> name ` set (collection_remove (layers stk) i))
                              \<and> suffixed base m \<notin> name ` set (collection_remove (layers stk) i)
                              \<longrightarrow> name (layers stk' ! i) = suffixed base m))
           \<and> suffixed base 1 = base @ ''.01'' \<and> suffixed base 2 = base @ ''.02''"
proof -
  define self where "self = layers stk ! i"
  define others where "others = collection_remove (layers stk) i"
  define u where "u = get_unique_name (put_layer stk i (self\<lparr>name := base\<rparr>)) (self\<lparr>name := base\<rparr>)"
  define stk' where "stk' = put_layer stk i (renamed self u)"
  define names where "names = map name ((layers stk)[i := self\<lparr>name := base\<rparr>])"
  have names: "set names = insert base (name ` set others)"
    unfolding names_def self_def others_def using i by (rule names_after_assignment)
  have run: "set_name stk i base = (None, stk')"
    using set_name_eq [OF i] by (simp add: stk'_def u_def self_def)
  have len: "length (layers stk') = length (layers stk)"
    by (simp add: stk'_def)
  have rest: "collection_remove (layers stk') i = others"
    by (simp add: stk'_def others_def)
  have nm: "name (layers stk' ! i) = u"
    using i by (simp add: stk'_def)
  have plain: "u = base"
    if "\<forall>x\<in>set others. name x = base \<and> is_initialized x \<longrightarrow> identifier x = identifier self"
    using get_unique_name_plain [OF i, of base] that by (simp add: u_def self_def others_def)
  have suffix: "u \<notin> name ` set others \<and> u \<noteq> base
      \<and> (\<forall>m\<ge>1. (\<forall>k. 1 \<le> k \<and> k < m \<longrightarrow> suffixed base k \<in> name ` set others)
                \<and> suffixed base m \<notin> name ` set others \<longrightarrow> u = suffixed base m)"
    if "\<exists>x\<in>set others. name x = base \<and> is_initialized x \<and> identifier x \<noteq> identifier self"
  proof -
    have u: "u = first_free_name base names 1"
      using get_unique_name_collision [OF i, of base] that
      by (simp add: u_def self_def others_def names_def)
    have "u \<notin> set names"
      unfolding u by (rule first_free_name_not_taken)
    then have free: "u \<notin> name ` set others" "u \<noteq> base"
      by (simp_all add: names)
    have "u = suffixed base m"
      if m: "1 \<le> m" "\<forall>k. 1 \<le> k \<and> k < m \<longrightarrow> suffixed base k \<in> name ` set others"
        "suffixed base m \<notin> name ` set others" for m
    proof -
      have "\<forall>k. 1 \<le> k \<and> k < m \<longrightarrow> suffixed base k \<in> set names"
        using m(2) by (simp add: names)
      moreover have "suffixed base m \<notin> set names"
        using m(3) by (simp add: names suffixed_neq_base)
      ultimately show ?thesis
        unfolding u using m(1) by (intro first_free_name_first) auto
    qed
    with free show ?thesis by blast
  qed
  have fmt: "suffixed base 1 = base @ ''.01''" "suffixed base 2 = base @ ''.02''"
    by (simp_all add: suffixed_def format_02_1 format_02_2 del: One_nat_def)
  show ?thesis
    using run len rest plain suffix fmt unfolding nm [symmetric] others_def self_def
    by blast
qed

text \<open>
  Two stacks of three slots. In the first, two live layers hold \<open>Layer\<close> and
  \<open>Layer.01\<close>; in the second, \<open>Layer\<close> is the name of a slot that is not initialized.
\<close>

definition taken_names_stack :: layer_stack where
  "taken_names_stack =
     \<lparr>layers = [default_layer\<lparr>identifier := ''aaaa''\<rparr>,
                default_layer\<lparr>identifier := ''bbbb'', name := ''Layer.01''\<rparr>,
                default_layer\<lparr>identifier := ''cccc'', name := []\<rparr>]\<rparr>"

definition free_name_stack :: layer_stack where
  "free_name_stack =
     \<lparr>layers = [default_layer,
                default_layer\<lparr>identifier := ''bbbb'', name := ''Layer.01''\<rparr>,
                default_layer\<lparr>identifier := ''cccc'', name := []\<rparr>]\<rparr>"

theorem set_name_unique_suffix_witness:
  "2 < length (layers taken_names_stack)
   \<and> (\<exists>x\<in>set (collection_remove (layers taken_names_stack) 2).
          name x = ''Layer'' \<and> is_initialized x
          \<and> identifier x \<noteq> identifier (layers taken_names_stack ! 2))
   \<and> fst (set_name taken_names_stack 2 ''Layer'') = None
   \<and> name (layers (snd (set_name taken_names_stack 2 ''Layer'')) ! 2) = ''Layer.02''
   \<and> 2 < length (layers free_name_stack)
   \<and> map (\<lambda>x. (name x, is_initialized x)) (collection_remove (layers free_name_stack) 2)
       = [(''Layer'', False), (''Layer.01'', True)]
   \<and> fst (set_name free_name_stack 2 ''Layer'') = None
   \<and> name (layers (snd (set_name free_name_stack 2 ''Layer'')) ! 2) = ''Layer''"
proof -
  have len: "2 < length (layers taken_names_stack)"
    by (simp add: taken_names_stack_def)
  have same: "\<exists>x\<in>set (collection_remove (layers taken_names_stack) 2).
          name x = ''Layer'' \<and> is_initialized x
          \<and> identifier x \<noteq> identifier (layers taken_names_stack ! 2)"
    by (simp add: taken_names_stack_def collection_remove_def default_layer_def is_initialized_def)
  have others: "name ` set (collection_remove (layers taken_names_stack) 2) = {''Layer'', ''Layer.01''}"
    by (simp add: taken_names_stack_def collection_remove_def default_layer_def)
  have s1: "suffixed ''Layer'' 1 = ''Layer.01''" and s2: "suffixed ''Layer'' 2 = ''Layer.02''"
    by (simp_all add: suffixed_def format_02_1 format_02_2 del: One_nat_def)
  have first: "\<forall>k. 1 \<le> k \<and> k < 2 \<longrightarrow>
      suffixed ''Layer'' k \<in> name ` set (collection_remove (layers taken_names_stack) 2)"
  proof (intro allI impI)
    fix k :: nat assume "1 \<le> k \<and> k < 2"
    then have "k = 1" by arith
    then show "suffixed ''Layer'' k \<in> name ` set (collection_remove (layers taken_names_stack) 2)"
      unfolding others using s1 by simp
  qed
  have free: "suffixed ''Layer'' 2 \<notin> name ` set (collection_remove (layers taken_names_stack) 2)"
    unfolding others s2 by simp
  have taken: "fst (set_name taken_names_stack 2 ''Layer'') = None
     \<and> name (layers (snd (set_name taken_names_stack 2 ''Layer'')) ! 2) = ''Layer.02''"
    using set_name_unique_suffix [OF len, of "''Layer''"] same first free s2
    by (metis fst_conv snd_conv one_le_numeral)
  have len': "2 < length (layers free_name_stack)"
    by (simp add: free_name_stack_def)
  have none: "\<forall>x\<in>set (collection_remove (layers free_name_stack) 2).
          name x = ''Layer'' \<and> is_initialized x
          \<longrightarrow> identifier x = identifier (layers free_name_stack ! 2)"
    by (simp add: free_name_stack_def collection_remove_def default_layer_def is_initialized_def)
  have plain: "fst (set_name free_name_stack 2 ''Layer'') = None
     \<and> name (layers (snd (set_name free_name_stack 2 ''Layer'')) ! 2) = ''Layer''"
    using set_name_unique_suffix [OF len', of "''Layer''"] none
    by (metis fst_conv snd_conv)
  have slots: "map (\<lambda>x. (name x, is_initialized x)) (collection_remove (layers free_name_stack) 2)
       = [(''Layer'', False), (''Layer.01'', True)]"
    by (simp add: free_name_stack_def collection_remove_def default_layer_def is_initialized_def)
  show ?thesis
    using len same taken len' slots plain by blast
qed

section \<open>Life cycle of a layer\<close>

text \<open>\<open>_preview_material_name\<close> and \<open>_create_preview_material\<close>.\<close>

definition preview_material_name :: "env \<Rightarrow> material_layer \<Rightarrow> string" where
  "preview_material_name e self = ''.'' @ material_name e @ ''.'' @ name self @ ''.preview''"

definition create_preview_material :: "env \<Rightarrow> material_layer \<Rightarrow> material_layer" where
  "create_preview_material e self =
     (if node_tree self = None then self
      else if preview_material self = None
      then self\<lparr>preview_material := Some \<lparr>ma_name = preview_material_name e self\<rparr>\<rparr>
      else self)"

text \<open>
  Modelled from the spec: the image manager of the layer stack is defined outside the
  sources at hand. Allocation binds the layer to the image and image channel the pool
  hands out; deallocation resets the binding to no image and channel \<open>-1\<close>.
\<close>

definition allocate_image_to_layer :: "env \<Rightarrow> material_layer \<Rightarrow> material_layer" where
  "allocate_image_to_layer e layer =
     layer\<lparr>image_ptr := Some (fst (allocated_image e)), image_channel := snd (allocated_image e)\<rparr>"

definition deallocate_layer_image :: "material_layer \<Rightarrow> material_layer" where
  "deallocate_layer_image layer = layer\<lparr>image_ptr := None, image_channel := - 1\<rparr>"

definition has_image :: "material_layer \<Rightarrow> bool" where
  "has_image self = (image_ptr self \<noteq> None)"

text \<open>
  Modelled from the spec: \<open>Channel.free_bake\<close> is defined in \<open>channel.py\<close>; it frees the
  baked data of the channel.
\<close>

definition channel_free_bake :: "channel \<Rightarrow> channel" where
  "channel_free_bake ch = ch\<lparr>ch_is_baked := False\<rparr>"

definition any_channel_baked :: "material_layer \<Rightarrow> bool" where
  "any_channel_baked self = (\<exists>x\<in>set (channels self). ch_is_baked x)"

text \<open>The body of the loop of \<open>free_bake\<close>, for one channel.\<close>

definition free_if_baked :: "channel \<Rightarrow> channel" where
  "free_if_baked ch = (if ch_is_baked ch then channel_free_bake ch else ch)"

text \<open>\<open>free_bake\<close>, with its closing assertion.\<close>

definition free_bake :: "material_layer \<Rightarrow> error option \<times> material_layer" where
  "free_bake self =
     (let self = self\<lparr>channels := map free_if_baked (channels self), is_baked := False\<rparr>
      in if any_channel_baked self then (Some AssertionError, self) else (None, self))"

text \<open>
  The loop of \<open>initialize\<close> over the channels it is given. The channels are
  \<open>BasicChannel\<close> instances.
\<close>

fun add_channels :: "env \<Rightarrow> material_layer \<Rightarrow> channel list \<Rightarrow> bool \<Rightarrow> error option \<times> material_layer" where
  "add_channels e self [] enabled_channels_only = (None, self)"
| "add_channels e self (ch # chs) enabled_channels_only =
     (if ch_enabled ch \<or> \<not> enabled_channels_only
      then (case add_channel e self (BasicChannel ch) of
              (Inl err, warnings, self1) \<Rightarrow> (Some err, self1)
            | (Inr added, warnings, self1) \<Rightarrow> add_channels e self1 chs enabled_channels_only)
      else add_channels e self chs enabled_channels_only)"

text \<open>
  The end of \<open>initialize\<close>, after the channels are added: the output node, the image of
  a paint layer, the preview material if previews are shown, and the closing assertion.
  \<open>set_node_group_vector_defaults\<close> adds nodes for unlinked vector outputs in the host's
  graph and is left out.
\<close>

definition initialize_finish :: "env \<Rightarrow> material_layer \<Rightarrow> error option \<times> material_layer" where
  "initialize_finish e self =
     (let self = self\<lparr>node_tree :=
                   map_option (\<lambda>nt. nt\<lparr>nodes := nodes nt @
                       [\<lparr>node_name = ''layer_output'', node_label = ''Layer Output'',
                         node_idname = ''NodeGroupOutput''\<rparr>]\<rparr>) (node_tree self)\<rparr>;
          self = (if layer_type self = ''MATERIAL_PAINT''
                  then allocate_image_to_layer e self else self);
          self = (if node_tree self \<noteq> None \<and> show_previews e
                  then create_preview_material e self else self)
      in if \<not> is_initialized self then (Some AssertionError, self) else (None, self))"

text \<open>
  \<open>initialize\<close> from the assignment of \<open>layer_type\<close> on: the part that works on the
  layer alone.
\<close>

definition initialize_layer ::
  "env \<Rightarrow> material_layer \<Rightarrow> string \<Rightarrow> channel list option \<Rightarrow> bool \<Rightarrow> error option \<times> material_layer" where
  "initialize_layer e self ltype chans enabled_channels_only =
     (let self = self\<lparr>layer_type := ltype, enabled := True, opacity := 1,
                      active_channel_index := 0\<rparr>;
          self = self\<lparr>node_tree :=
                   Some \<lparr>nt_name = node_tree_name self, outputs = [], nodes = []\<rparr>\<rparr>
      in case (case chans of
                 None \<Rightarrow> (None, self)
               | Some chs \<Rightarrow> add_channels e self chs enabled_channels_only) of
           (Some err, self) \<Rightarrow> (Some err, self)
         | (None, self) \<Rightarrow> initialize_finish e self)"

text \<open>
  \<open>initialize\<close> for the layer in slot \<open>i\<close> of \<open>layer_stack\<close>, which is the stack the
  layer belongs to when it belongs to one. The three checks come first; then the
  identifier and the name are assigned, the latter through the update callback.
\<close>

definition initialize ::
  "env \<Rightarrow> layer_stack \<Rightarrow> nat \<Rightarrow> string \<Rightarrow> string \<Rightarrow> channel list option \<Rightarrow> bool
     \<Rightarrow> error option \<times> layer_stack" where
  "initialize e layer_stack i nm ltype chans enabled_channels_only =
     (if \<not> i < length (layers layer_stack) then (Some IndexError, layer_stack)
      else if \<not> attached e then (Some RuntimeError, layer_stack)
      else if is_initialized (layers layer_stack ! i) then (Some RuntimeError, layer_stack)
      else if ltype \<notin> VALID_LAYER_TYPES then (Some ValueError, layer_stack)
      else
        (let stk1 = put_layer layer_stack i
                      ((layers layer_stack ! i)\<lparr>identifier := new_identifier e\<rparr>)
         in case set_name stk1 i nm of
              (Some err, stk2) \<Rightarrow> (Some err, stk2)
            | (None, stk2) \<Rightarrow>
                (case initialize_layer e (layers stk2 ! i) ltype chans enabled_channels_only of
                   (err, self) \<Rightarrow> (err, put_layer stk2 i self))))"

text \<open>
  \<open>delete\<close>, after the children are gone: the collections are cleared, the node tree,
  the node mask and the preview material are released, the name is cleared through its
  callback, and the three closing assertions are checked. The callback of \<open>node_mask\<close>
  returns at once, the layer being uninitialized by then.
\<close>

definition delete_resources :: "layer_stack \<Rightarrow> nat \<Rightarrow> error option \<times> layer_stack" where
  "delete_resources stk i =
     (let self = (layers stk ! i)\<lparr>children := [], channels := [], node_tree := None,
                                   node_mask := None, preview_material := None\<rparr>
      in case set_name (put_layer stk i self) i [] of
           (Some err, stk1) \<Rightarrow> (Some err, stk1)
         | (None, stk1) \<Rightarrow>
             (let self = layers stk1 ! i
              in if is_initialized self then (Some AssertionError, stk1)
                 else if image_ptr self \<noteq> None then (Some AssertionError, stk1)
                 else if image_channel self \<noteq> - 1 then (Some AssertionError, stk1)
                 else (None, stk1)))"

text \<open>
  The beginning of \<open>delete\<close>, on the layer alone: the identifier is cleared first, the
  parent reference is reset, baked channels are freed, and the image is handed back.
\<close>

definition delete_detach :: "material_layer \<Rightarrow> error option \<times> material_layer" where
  "delete_detach self =
     (let self = self\<lparr>identifier := [], parent := ref_set (parent self) None\<rparr>
      in case free_bake self of
           (Some err, self) \<Rightarrow> (Some err, self)
         | (None, self) \<Rightarrow>
             (None, if has_image self then deallocate_layer_image self else self))"

text \<open>
  \<open>delete\<close> for the layer in slot \<open>i\<close>. The first argument bounds the depth of the
  nested calls, as the interpreter's recursion limit does; at the bound the call raises
  \<open>RecursionError\<close>. A child whose reference is dangling resolves to \<open>None\<close>, and
  calling \<open>delete\<close> on it raises. The loop runs over the child references the layer
  has when the loop starts: the nested calls reach layers through references that are
  set, and the layer has lost its identifier by then, so its own collection stays as it is.
\<close>

fun delete :: "nat \<Rightarrow> layer_stack \<Rightarrow> nat \<Rightarrow> error option \<times> layer_stack"
  and delete_children :: "nat \<Rightarrow> layer_stack \<Rightarrow> material_layer_ref list \<Rightarrow> error option \<times> layer_stack"
where
  "delete 0 stk i = (Some RecursionError, stk)"
| "delete (Suc depth) stk i =
     (if \<not> i < length (layers stk) then (Some IndexError, stk)
      else if \<not> is_initialized (layers stk ! i) then (None, stk)
      else
        (case delete_detach (layers stk ! i) of
           (Some err, self) \<Rightarrow> (Some err, put_layer stk i self)
         | (None, self) \<Rightarrow>
             (case delete_children depth (put_layer stk i self) (children self) of
                (Some err, stk1) \<Rightarrow> (Some err, stk1)
              | (None, stk1) \<Rightarrow> delete_resources stk1 i)))"
| "delete_children depth stk [] = (None, stk)"
| "delete_children depth stk (child # rest) =
     (case resolve stk child of
        Inl err \<Rightarrow> (Some err, stk)
      | Inr None \<Rightarrow> (Some AttributeError, stk)
      | Inr (Some (j, child_layer)) \<Rightarrow>
          (case delete depth stk j of
             (Some err, stk1) \<Rightarrow> (Some err, stk1)
           | (None, stk1) \<Rightarrow> delete_children depth stk1 rest))"

text \<open>A stack of two slots that were never initialized.\<close>

definition fresh_stack :: layer_stack where
  "fresh_stack = \<lparr>layers = [default_layer, default_layer]\<rparr>"

subsection \<open>Failure of \<open>initialize\<close>\<close>

text \<open>
  Claim C10. When \<open>initialize\<close> is called on a layer that is not attached to a stack,
  or is already initialized, or with a layer type that is not recognized, it raises
  (\<open>RuntimeError\<close>, \<open>RuntimeError\<close>, \<open>ValueError\<close>) and every stored field of the layer,
  as of every other layer of the stack, is as before the call.
\<close>

theorem initialize_atomic_on_failure:
  assumes "i < length (layers stk)"
    and "\<not> attached e \<or> is_initialized (layers stk ! i) \<or> ltype \<notin> VALID_LAYER_TYPES"
  shows "initialize e stk i nm ltype chans enabled_channels_only
           = (Some (if \<not> attached e \<or> is_initialized (layers stk ! i)
                    then RuntimeError else ValueError), stk)"
  using assms by (auto simp: initialize_def)

theorem initialize_atomic_on_failure_witness:
  "(0::nat) < length (layers \<lparr>layers = [live_layer]\<rparr>)
   \<and> is_initialized (layers \<lparr>layers = [live_layer]\<rparr> ! 0)
   \<and> initialize example_env \<lparr>layers = [live_layer]\<rparr> 0 ''Paint'' ''MATERIAL_PAINT'' None True
       = (Some RuntimeError, \<lparr>layers = [live_layer]\<rparr>)
   \<and> (0::nat) < length (layers fresh_stack)
   \<and> ''MATERIAL_MASK'' \<notin> VALID_LAYER_TYPES
   \<and> initialize example_env fresh_stack 0 ''Paint'' ''MATERIAL_MASK'' None True
       = (Some ValueError, fresh_stack)
   \<and> \<not> attached (example_env\<lparr>attached := False\<rparr>)
   \<and> initialize (example_env\<lparr>attached := False\<rparr>) fresh_stack 0 ''Paint'' ''MATERIAL_PAINT'' None True
       = (Some RuntimeError, fresh_stack)"
  using initialize_atomic_on_failure [of 0 "\<lparr>layers = [live_layer]\<rparr>" example_env
      "''MATERIAL_PAINT''" "''Paint''" None True]
    initialize_atomic_on_failure [of 0 fresh_stack example_env "''MATERIAL_MASK''" "''Paint''" None True]
    initialize_atomic_on_failure [of 0 fresh_stack "example_env\<lparr>attached := False\<rparr>"
      "''MATERIAL_PAINT''" "''Paint''" None True]
  by (simp add: live_layer_def fresh_stack_def default_layer_def example_env_def
      is_initialized_def VALID_LAYER_TYPES_def)

subsection \<open>What \<open>initialize\<close> and \<open>delete\<close> leave in the slot\<close>

lemma ensure_node_tree_output_fields:
  assumes "node_tree self \<noteq> None"
  shows "\<exists>nt. ensure_node_tree_output e self ch = Inr (self\<lparr>node_tree := Some nt\<rparr>)"
  using assms
  by (auto simp: ensure_node_tree_output_def Let_def split: option.split)

lemma add_channel_fields:
  assumes "node_tree self \<noteq> None"
  shows "\<exists>added warnings cs nt.
           add_channel e self (BasicChannel ch)
             = (Inr added, warnings, self\<lparr>channels := cs, node_tree := Some nt\<rparr>)"
proof (cases "channels_get (channels self) (ch_name ch)")
  case (Some existing)
  from assms obtain nt where "node_tree self = Some nt" by auto
  then have "self = self\<lparr>channels := channels self, node_tree := Some nt\<rparr>"
    by (cases self) simp
  moreover have "add_channel e self (BasicChannel ch)
      = (Inr existing, [duplicate_warning self ch], self)"
    by (simp add: add_channel_def Some)
  ultimately show ?thesis by metis
next
  case None
  have "node_tree (self\<lparr>channels := channels self @ [init_from_channel ch]\<rparr>) \<noteq> None"
    using assms by simp
  from ensure_node_tree_output_fields [OF this, of e ch] obtain nt where
    "ensure_node_tree_output e (self\<lparr>channels := channels self @ [init_from_channel ch]\<rparr>) ch
       = Inr (self\<lparr>channels := channels self @ [init_from_channel ch], node_tree := Some nt\<rparr>)"
    by auto
  then have "add_channel e self (BasicChannel ch)
      = (Inr (init_from_channel ch), [],
         self\<lparr>channels := channels self @ [init_from_channel ch], node_tree := Some nt\<rparr>)"
    by (simp add: add_channel_def None Let_def refresh_preview_material_def)
  then show ?thesis by blast
qed

lemma add_channels_fields:
  assumes "node_tree self = Some nt0"
  shows "\<exists>cs nt. add_channels e self chs enabled_channels_only
           = (None, self\<lparr>channels := cs, node_tree := Some nt\<rparr>)"
  using assms
proof (induction chs arbitrary: self nt0)
  case Nil
  then have "self = self\<lparr>channels := channels self, node_tree := Some nt0\<rparr>"
    by (cases self) simp
  then show ?case by (metis add_channels.simps(1))
next
  case (Cons ch chs)
  show ?case
  proof (cases "ch_enabled ch \<or> \<not> enabled_channels_only")
    case True
    from Cons.prems have "node_tree self \<noteq> None" by simp
    from add_channel_fields [OF this, of e ch] obtain added warnings cs nt where
      add: "add_channel e self (BasicChannel ch)
              = (Inr added, warnings, self\<lparr>channels := cs, node_tree := Some nt\<rparr>)"
      by blast
    have "node_tree (self\<lparr>channels := cs, node_tree := Some nt\<rparr>) = Some nt" by simp
    from Cons.IH [OF this] obtain cs' nt' where
      "add_channels e (self\<lparr>channels := cs, node_tree := Some nt\<rparr>) chs enabled_channels_only
         = (None, self\<lparr>channels := cs', node_tree := Some nt'\<rparr>)"
      by auto
    with add True show ?thesis by auto
  next
    case False
    with Cons.IH [OF Cons.prems] show ?thesis by simp
  qed
qed

text \<open>The fields \<open>initialize\<close> settles, whatever the channels.\<close>

definition initialized_fields :: "env \<Rightarrow> material_layer \<Rightarrow> string \<Rightarrow> material_layer" where
  "initialized_fields e self ltype =
     (let self = self\<lparr>layer_type := ltype, enabled := True, opacity := 1,
                      active_channel_index := 0\<rparr>
      in if ltype = ''MATERIAL_PAINT'' then allocate_image_to_layer e self else self)"

lemma initialize_finish_fields:
  assumes "is_initialized self" and "node_tree self = Some nt"
  shows "\<exists>nt' pm. initialize_finish e self
           = (None, (if layer_type self = ''MATERIAL_PAINT''
                     then allocate_image_to_layer e self else self)
                      \<lparr>node_tree := Some nt', preview_material := pm\<rparr>)"
proof -
  have "initialize_finish e self
      = (None, (if layer_type self = ''MATERIAL_PAINT''
                then allocate_image_to_layer e self else self)
         \<lparr>node_tree := Some (nt\<lparr>nodes := nodes nt @
                       [\<lparr>node_name = ''layer_output'', node_label = ''Layer Output'',
                         node_idname = ''NodeGroupOutput''\<rparr>]\<rparr>),
          preview_material := preview_material
            (snd (initialize_finish e self))\<rparr>)"
    using assms
    by (simp add: initialize_finish_def Let_def allocate_image_to_layer_def
        create_preview_material_def is_initialized_def)
  then show ?thesis by blast
qed

lemma initialize_layer_fields:
  assumes "is_initialized self"
  shows "\<exists>cs nt pm. initialize_layer e self ltype chans enabled_channels_only
           = (None, (initialized_fields e self ltype)
                       \<lparr>channels := cs, node_tree := Some nt, preview_material := pm\<rparr>)"
proof -
  define self1 where "self1 = self\<lparr>layer_type := ltype, enabled := True, opacity := 1,
                      active_channel_index := 0\<rparr>"
  define self2 where "self2 = self1\<lparr>node_tree :=
                   Some \<lparr>nt_name = node_tree_name self1, outputs = [], nodes = []\<rparr>\<rparr>"
  have "\<exists>cs nt. (case chans of None \<Rightarrow> (None, self2)
                  | Some chs \<Rightarrow> add_channels e self2 chs enabled_channels_only)
           = (None, self2\<lparr>channels := cs, node_tree := Some nt\<rparr>)"
  proof (cases chans)
    case None
    have "self2 = self2\<lparr>channels := channels self2,
        node_tree := Some \<lparr>nt_name = node_tree_name self1, outputs = [], nodes = []\<rparr>\<rparr>"
      by (simp add: self2_def)
    then show ?thesis using None by (metis option.simps(4))
  next
    case (Some chs)
    have "node_tree self2 = Some \<lparr>nt_name = node_tree_name self1, outputs = [], nodes = []\<rparr>"
      by (simp add: self2_def)
    from add_channels_fields [OF this] show ?thesis using Some by simp
  qed
  then obtain cs nt where loop: "(case chans of None \<Rightarrow> (None, self2)
                  | Some chs \<Rightarrow> add_channels e self2 chs enabled_channels_only)
           = (None, self2\<lparr>channels := cs, node_tree := Some nt\<rparr>)"
    by blast
  define self3 where "self3 = self2\<lparr>channels := cs, node_tree := Some nt\<rparr>"
  have run: "initialize_layer e self ltype chans enabled_channels_only = initialize_finish e self3"
    unfolding initialize_layer_def Let_def self1_def [symmetric] self2_def [symmetric] loop
    by (simp add: self3_def)
  have "is_initialized self3" "node_tree self3 = Some nt" "layer_type self3 = ltype"
    using assms by (simp_all add: self3_def self2_def self1_def is_initialized_def)
  from initialize_finish_fields [OF this(1,2), of e] this(3) obtain nt' pm where
    "initialize_finish e self3
       = (None, (if ltype = ''MATERIAL_PAINT'' then allocate_image_to_layer e self3 else self3)
                  \<lparr>node_tree := Some nt', preview_material := pm\<rparr>)"
    by auto
  moreover have "(if ltype = ''MATERIAL_PAINT'' then allocate_image_to_layer e self3 else self3)
                  \<lparr>node_tree := Some nt', preview_material := pm\<rparr>
      = (initialized_fields e self ltype)
           \<lparr>channels := cs, node_tree := Some nt', preview_material := pm\<rparr>"
    by (simp add: self3_def self2_def self1_def initialized_fields_def Let_def
        allocate_image_to_layer_def)
  ultimately show ?thesis using run by metis
qed


lemma initialize_slot:
  assumes i: "i < length (layers stk)"
    and pre: "attached e" "\<not> is_initialized (layers stk ! i)" "ltype \<in> VALID_LAYER_TYPES"
    and ident: "new_identifier e \<noteq> []"
  shows "\<exists>l. initialize e stk i nm ltype chans enabled_channels_only = (None, put_layer stk i l)
           \<and> identifier l = new_identifier e
           \<and> children l = children (layers stk ! i)
           \<and> parent l = parent (layers stk ! i)
           \<and> is_baked l = is_baked (layers stk ! i)
           \<and> node_mask l = node_mask (layers stk ! i)
           \<and> layer_type l = ltype \<and> enabled l \<and> opacity l = 1 \<and> active_channel_index l = 0
           \<and> node_tree l \<noteq> None
           \<and> image_ptr l = (if ltype = ''MATERIAL_PAINT'' then Some (fst (allocated_image e))
                            else image_ptr (layers stk ! i))
           \<and> image_channel l = (if ltype = ''MATERIAL_PAINT'' then snd (allocated_image e)
                                else image_channel (layers stk ! i))"
proof -
  define self0 where "self0 = (layers stk ! i)\<lparr>identifier := new_identifier e\<rparr>"
  define stk1 where "stk1 = put_layer stk i self0"
  have i1: "i < length (layers stk1)" and slot1: "layers stk1 ! i = self0"
    using i by (simp_all add: stk1_def)
  define u where "u = get_unique_name (put_layer stk1 i (self0\<lparr>name := nm\<rparr>)) (self0\<lparr>name := nm\<rparr>)"
  define stk2 where "stk2 = put_layer stk1 i (renamed self0 u)"
  have named: "set_name stk1 i nm = (None, stk2)"
    using set_name_eq [OF i1, of nm] by (simp add: slot1 u_def stk2_def)
  have slot2: "layers stk2 ! i = renamed self0 u"
    using i by (simp add: stk2_def stk1_def)
  have "is_initialized (renamed self0 u)"
    using ident by (simp add: renamed_def self0_def is_initialized_def)
  from initialize_layer_fields [OF this, of e ltype chans enabled_channels_only]
  obtain cs nt pm where
    rest: "initialize_layer e (renamed self0 u) ltype chans enabled_channels_only
       = (None, (initialized_fields e (renamed self0 u) ltype)
                   \<lparr>channels := cs, node_tree := Some nt, preview_material := pm\<rparr>)"
    by blast
  define l where "l = (initialized_fields e (renamed self0 u) ltype)
                   \<lparr>channels := cs, node_tree := Some nt, preview_material := pm\<rparr>"
  have "initialize e stk i nm ltype chans enabled_channels_only = (None, put_layer stk2 i l)"
    using i pre
    by (simp add: initialize_def Let_def self0_def [symmetric] stk1_def [symmetric] named slot2
        rest l_def)
  moreover have "put_layer stk2 i l = put_layer stk i l"
    by (simp add: stk2_def stk1_def)
  ultimately have run: "initialize e stk i nm ltype chans enabled_channels_only
      = (None, put_layer stk i l)"
    by simp
  have fields: "identifier l = new_identifier e" "children l = children (layers stk ! i)"
    "parent l = parent (layers stk ! i)" "is_baked l = is_baked (layers stk ! i)"
    "node_mask l = node_mask (layers stk ! i)"
    "layer_type l = ltype" "enabled l" "opacity l = 1" "active_channel_index l = 0"
    "node_tree l \<noteq> None"
    "image_ptr l = (if ltype = ''MATERIAL_PAINT'' then Some (fst (allocated_image e))
                            else image_ptr (layers stk ! i))"
    "image_channel l = (if ltype = ''MATERIAL_PAINT'' then snd (allocated_image e)
                                else image_channel (layers stk ! i))"
    by (simp_all add: l_def initialized_fields_def Let_def allocate_image_to_layer_def
        renamed_def self0_def)
  show ?thesis
    by (rule exI [of _ l]) (simp only: run fields simp_thms)
qed


lemma free_if_baked_not_baked [simp]: "\<not> ch_is_baked (free_if_baked ch)"
  by (simp add: free_if_baked_def channel_free_bake_def)

lemma free_bake_eq:
  "free_bake self
     = (None, self\<lparr>channels := map free_if_baked (channels self), is_baked := False\<rparr>)"
  by (simp add: free_bake_def Let_def any_channel_baked_def)

lemma delete_detach_eq:
  "delete_detach self
     = (None, self\<lparr>identifier := [], parent := empty_ref,
                    channels := map free_if_baked (channels self),
                    is_baked := False, image_ptr := None,
                    image_channel := (if image_ptr self = None then image_channel self else - 1)\<rparr>)"
  by (cases self)
    (simp add: delete_detach_def Let_def free_bake_eq has_image_def deallocate_layer_image_def
      ref_set_def empty_ref_def)

lemma delete_resources_slot:
  assumes i: "i < length (layers stk)"
    and dead: "identifier (layers stk ! i) = []"
      "image_ptr (layers stk ! i) = None" "image_channel (layers stk ! i) = - 1"
  shows "\<exists>u. delete_resources stk i
           = (None, put_layer stk i
                ((layers stk ! i)\<lparr>children := [], channels := [], node_tree := None,
                                   node_mask := None, preview_material := None, name := u\<rparr>))
           \<and> ((\<forall>x\<in>set (collection_remove (layers stk) i). name x = [] \<longrightarrow> \<not> is_initialized x)
                \<longrightarrow> u = [])"
proof -
  define self where "self = (layers stk ! i)\<lparr>children := [], channels := [], node_tree := None,
                                   node_mask := None, preview_material := None\<rparr>"
  define stk0 where "stk0 = put_layer stk i self"
  have i0: "i < length (layers stk0)" and slot0: "layers stk0 ! i = self"
    and others0: "collection_remove (layers stk0) i = collection_remove (layers stk) i"
    using i by (simp_all add: stk0_def)
  define u where "u = get_unique_name (put_layer stk0 i (self\<lparr>name := []\<rparr>)) (self\<lparr>name := []\<rparr>)"
  have named: "set_name stk0 i [] = (None, put_layer stk0 i (renamed self u))"
    using set_name_eq [OF i0, of "[]"] by (simp add: slot0 u_def)
  have slot: "layers (put_layer stk0 i (renamed self u)) ! i = renamed self u"
    using i0 by simp
  have same: "renamed self u
      = (layers stk ! i)\<lparr>children := [], channels := [], node_tree := None,
                         node_mask := None, preview_material := None, name := u\<rparr>"
    by (simp add: renamed_def self_def)
  have step: "delete_resources stk i
      = (case set_name stk0 i [] of
           (Some err, stk1) \<Rightarrow> (Some err, stk1)
         | (None, stk1) \<Rightarrow>
             (let self = layers stk1 ! i
              in if is_initialized self then (Some AssertionError, stk1)
                 else if image_ptr self \<noteq> None then (Some AssertionError, stk1)
                 else if image_channel self \<noteq> - 1 then (Some AssertionError, stk1)
                 else (None, stk1)))"
    by (simp add: delete_resources_def Let_def self_def stk0_def)
  have chk: "\<not> is_initialized (renamed self u)" "image_ptr (renamed self u) = None"
    "image_channel (renamed self u) = - 1"
    using dead by (simp_all add: renamed_def self_def is_initialized_def)
  have "delete_resources stk i = (None, put_layer stk0 i (renamed self u))"
    unfolding step named using i0 chk by (simp add: Let_def)
  moreover have "put_layer stk0 i (renamed self u) = put_layer stk i (renamed self u)"
    by (simp add: stk0_def)
  ultimately have run: "delete_resources stk i
      = (None, put_layer stk i
                ((layers stk ! i)\<lparr>children := [], channels := [], node_tree := None,
                                   node_mask := None, preview_material := None, name := u\<rparr>))"
    by (simp add: same)
  have plain: "u = []"
    if "\<forall>x\<in>set (collection_remove (layers stk) i). name x = [] \<longrightarrow> \<not> is_initialized x"
    using get_unique_name_plain [OF i0, of "[]"] that
    by (auto simp: u_def slot0 others0)
  show ?thesis
    using run plain by blast
qed

lemma delete_leaf:
  assumes i: "i < length (layers stk)"
    and live: "is_initialized (layers stk ! i)"
    and leaf: "children (layers stk ! i) = []"
    and img: "image_ptr (layers stk ! i) = None \<longrightarrow> image_channel (layers stk ! i) = - 1"
  shows "\<exists>l. delete (Suc depth) stk i = (None, put_layer stk i l)
           \<and> identifier l = [] \<and> image_ptr l = None \<and> image_channel l = - 1
           \<and> channels l = [] \<and> children l = [] \<and> parent l = empty_ref
           \<and> node_tree l = None \<and> node_mask l = None \<and> preview_material l = None
           \<and> is_baked l = False
           \<and> layer_type l = layer_type (layers stk ! i)
           \<and> enabled l = enabled (layers stk ! i)
           \<and> opacity l = opacity (layers stk ! i)
           \<and> active_channel_index l = active_channel_index (layers stk ! i)
           \<and> ((\<forall>x\<in>set (collection_remove (layers stk) i). name x = [] \<longrightarrow> \<not> is_initialized x)
                \<longrightarrow> name l = [])"
proof -
  obtain self3 where detach: "delete_detach (layers stk ! i) = (None, self3)"
    and self3: "self3 = (layers stk ! i)\<lparr>identifier := [], parent := empty_ref,
                    channels := map free_if_baked (channels (layers stk ! i)),
                    is_baked := False, image_ptr := None,
                    image_channel := (if image_ptr (layers stk ! i) = None
                                      then image_channel (layers stk ! i) else - 1)\<rparr>"
    using delete_detach_eq by blast
  define stk1 where "stk1 = put_layer stk i self3"
  have i1: "i < length (layers stk1)" and slot1: "layers stk1 ! i = self3"
    and others1: "collection_remove (layers stk1) i = collection_remove (layers stk) i"
    using i by (simp_all add: stk1_def)
  have dead: "identifier self3 = []" "image_ptr self3 = None" "image_channel self3 = - 1"
    using img by (simp_all add: self3)
  have kids: "children self3 = []"
    using leaf by (simp add: self3)
  from delete_resources_slot [OF i1] dead obtain u where
    res: "delete_resources stk1 i
           = (None, put_layer stk1 i
                (self3\<lparr>children := [], channels := [], node_tree := None,
                        node_mask := None, preview_material := None, name := u\<rparr>))"
    and plain: "(\<forall>x\<in>set (collection_remove (layers stk) i). name x = [] \<longrightarrow> \<not> is_initialized x)
                \<longrightarrow> u = []"
    unfolding slot1 others1 by blast
  define l where "l = self3\<lparr>children := [], channels := [], node_tree := None,
                        node_mask := None, preview_material := None, name := u\<rparr>"
  have "delete (Suc depth) stk i = delete_resources stk1 i"
    using i live by (simp add: detach kids stk1_def)
  also have "\<dots> = (None, put_layer stk i l)"
    unfolding res by (simp add: stk1_def l_def)
  finally have run: "delete (Suc depth) stk i = (None, put_layer stk i l)" .
  have fields: "identifier l = []" "image_ptr l = None" "image_channel l = - 1"
    "channels l = []" "children l = []" "parent l = empty_ref"
    "node_tree l = None" "node_mask l = None" "preview_material l = None"
    "is_baked l = False"
    "layer_type l = layer_type (layers stk ! i)" "enabled l = enabled (layers stk ! i)"
    "opacity l = opacity (layers stk ! i)"
    "active_channel_index l = active_channel_index (layers stk ! i)"
    using dead by (simp_all add: l_def) (simp_all add: self3)
  have nm: "name l = u" by (simp add: l_def)
  show ?thesis
    using plain by (intro exI [of _ l]) (simp only: run fields nm simp_thms)
qed


text \<open>
  Claim C1, amended. On a slot that is not initialized (without children, and with the
  image binding of a new or deleted slot), \<open>initialize\<close> followed by \<open>delete\<close> succeeds
  and returns the slot to the uninitialized state, the other slots being as they were:
  identifier empty, no image, image channel \<open>-1\<close>, no channels, no children, parent
  unset, no node tree, node mask or preview material, not baked. The remaining stored
  fields are not restored to what they were before \<open>initialize\<close>: \<open>layer_type\<close>,
  \<open>enabled\<close>, \<open>opacity\<close> and \<open>active_channel_index\<close> keep what \<open>initialize\<close> wrote, and
  the name is cleared (it is the empty string when no initialized layer of the stack has
  the empty name).
\<close>

theorem initialize_then_delete:
  assumes i: "i < length (layers stk)"
    and pre: "attached e" "\<not> is_initialized (layers stk ! i)" "ltype \<in> VALID_LAYER_TYPES"
    and ident: "new_identifier e \<noteq> []"
    and leaf: "children (layers stk ! i) = []"
    and img: "image_ptr (layers stk ! i) = None \<longrightarrow> image_channel (layers stk ! i) = - 1"
  shows "\<exists>stk1 l. initialize e stk i nm ltype chans enabled_channels_only = (None, stk1)
           \<and> delete (Suc depth) stk1 i = (None, put_layer stk i l)
           \<and> \<not> is_initialized l \<and> identifier l = []
           \<and> image_ptr l = None \<and> image_channel l = - 1
           \<and> channels l = [] \<and> children l = [] \<and> \<not> ref_bool (parent l) \<and> parent l = empty_ref
           \<and> node_tree l = None \<and> node_mask l = None \<and> preview_material l = None
           \<and> is_baked l = False
           \<and> layer_type l = ltype \<and> enabled l \<and> opacity l = 1 \<and> active_channel_index l = 0
           \<and> ((\<forall>x\<in>set (collection_remove (layers stk) i). name x = [] \<longrightarrow> \<not> is_initialized x)
                \<longrightarrow> name l = [])"
proof -
  from initialize_slot [OF i pre ident, of nm chans enabled_channels_only] obtain l1 where
    init: "initialize e stk i nm ltype chans enabled_channels_only = (None, put_layer stk i l1)"
    and l1: "identifier l1 = new_identifier e" "children l1 = children (layers stk ! i)"
      "layer_type l1 = ltype" "enabled l1" "opacity l1 = 1" "active_channel_index l1 = 0"
      "image_ptr l1 = (if ltype = ''MATERIAL_PAINT'' then Some (fst (allocated_image e))
                       else image_ptr (layers stk ! i))"
      "image_channel l1 = (if ltype = ''MATERIAL_PAINT'' then snd (allocated_image e)
                           else image_channel (layers stk ! i))"
    by blast
  define stk1 where "stk1 = put_layer stk i l1"
  have i1: "i < length (layers stk1)" and slot1: "layers stk1 ! i = l1"
    and others1: "collection_remove (layers stk1) i = collection_remove (layers stk) i"
    using i by (simp_all add: stk1_def)
  have live: "is_initialized (layers stk1 ! i)"
    using ident by (simp add: slot1 l1 is_initialized_def)
  have leaf1: "children (layers stk1 ! i) = []"
    using leaf by (simp add: slot1 l1)
  have img1: "image_ptr (layers stk1 ! i) = None \<longrightarrow> image_channel (layers stk1 ! i) = - 1"
    using img by (simp add: slot1 l1)
  from delete_leaf [OF i1 live leaf1 img1, of depth] obtain l where
    del: "delete (Suc depth) stk1 i = (None, put_layer stk1 i l)"
    and l: "identifier l = []" "image_ptr l = None" "image_channel l = - 1"
      "channels l = []" "children l = []" "parent l = empty_ref"
      "node_tree l = None" "node_mask l = None" "preview_material l = None"
      "is_baked l = False"
      "layer_type l = layer_type (layers stk1 ! i)" "enabled l = enabled (layers stk1 ! i)"
      "opacity l = opacity (layers stk1 ! i)"
      "active_channel_index l = active_channel_index (layers stk1 ! i)"
    and nm: "(\<forall>x\<in>set (collection_remove (layers stk1) i). name x = [] \<longrightarrow> \<not> is_initialized x)
                \<longrightarrow> name l = []"
    by blast
  have del': "delete (Suc depth) stk1 i = (None, put_layer stk i l)"
    unfolding del by (simp add: stk1_def)
  have kept: "layer_type l = ltype" "enabled l" "opacity l = 1" "active_channel_index l = 0"
    by (simp_all add: l slot1 l1)
  have unset: "\<not> is_initialized l" "\<not> ref_bool empty_ref"
    by (simp_all add: l is_initialized_def ref_bool_def empty_ref_def)
  show ?thesis
    using nm unfolding others1
    by (intro exI [of _ stk1] exI [of _ l])
      (simp only: init stk1_def [symmetric] del' l(1-10) kept unset simp_thms)
qed

theorem initialize_then_delete_witness:
  "0 < length (layers fresh_stack) \<and> attached example_env
   \<and> \<not> is_initialized (layers fresh_stack ! 0)
   \<and> ''MATERIAL_PAINT'' \<in> VALID_LAYER_TYPES \<and> new_identifier example_env \<noteq> []
   \<and> children (layers fresh_stack ! 0) = []
   \<and> image_ptr (layers fresh_stack ! 0) = None \<and> image_channel (layers fresh_stack ! 0) = - 1
   \<and> (\<exists>stk1 l.
          initialize example_env fresh_stack 0 ''Layer'' ''MATERIAL_PAINT'' (Some [color_channel]) True
            = (None, stk1)
          \<and> delete (Suc 0) stk1 0 = (None, put_layer fresh_stack 0 l)
          \<and> \<not> is_initialized l \<and> image_ptr l = None \<and> image_channel l = - 1
          \<and> channels l = [] \<and> children l = [] \<and> \<not> ref_bool (parent l)
          \<and> node_tree l = None \<and> layer_type l = ''MATERIAL_PAINT'' \<and> name l = [])"
proof -
  have h: "0 < length (layers fresh_stack)" "attached example_env"
    "\<not> is_initialized (layers fresh_stack ! 0)"
    "''MATERIAL_PAINT'' \<in> VALID_LAYER_TYPES" "new_identifier example_env \<noteq> []"
    "children (layers fresh_stack ! 0) = []"
    "image_ptr (layers fresh_stack ! 0) = None \<longrightarrow> image_channel (layers fresh_stack ! 0) = - 1"
    by (simp_all add: fresh_stack_def default_layer_def example_env_def is_initialized_def
        VALID_LAYER_TYPES_def)
  have others: "\<forall>x\<in>set (collection_remove (layers fresh_stack) 0). name x = [] \<longrightarrow> \<not> is_initialized x"
    by (simp add: fresh_stack_def collection_remove_def default_layer_def)
  from initialize_then_delete [OF h, of "''Layer''" "Some [color_channel]" True 0] others
  obtain stk1 l where
    "initialize example_env fresh_stack 0 ''Layer'' ''MATERIAL_PAINT'' (Some [color_channel]) True
       = (None, stk1)"
    "delete (Suc 0) stk1 0 = (None, put_layer fresh_stack 0 l)"
    "\<not> is_initialized l" "image_ptr l = None" "image_channel l = - 1"
    "channels l = []" "children l = []" "\<not> ref_bool (parent l)"
    "node_tree l = None" "layer_type l = ''MATERIAL_PAINT''" "name l = []"
    by blast
  then have "\<exists>stk1 l.
          initialize example_env fresh_stack 0 ''Layer'' ''MATERIAL_PAINT'' (Some [color_channel]) True
            = (None, stk1)
          \<and> delete (Suc 0) stk1 0 = (None, put_layer fresh_stack 0 l)
          \<and> \<not> is_initialized l \<and> image_ptr l = None \<and> image_channel l = - 1
          \<and> channels l = [] \<and> children l = [] \<and> \<not> ref_bool (parent l)
          \<and> node_tree l = None \<and> layer_type l = ''MATERIAL_PAINT'' \<and> name l = []"
    by blast
  moreover have "image_ptr (layers fresh_stack ! 0) = None"
    "image_channel (layers fresh_stack ! 0) = - 1"
    by (simp_all add: fresh_stack_def default_layer_def)
  ultimately show ?thesis using h by simp
qed

text \<open>
  The claim as first stated fails on a new slot: its name is \<open>Layer\<close> before
  \<open>initialize\<close> and empty after \<open>delete\<close>; initialized as a fill layer, it also keeps
  that type.
\<close>

theorem initialize_then_delete_not_restored:
  "name (layers fresh_stack ! 0) = ''Layer''
   \<and> layer_type (layers fresh_stack ! 0) = ''MATERIAL_PAINT''
   \<and> fst (initialize example_env fresh_stack 0 ''Layer'' ''MATERIAL_FILL'' None True) = None
   \<and> fst (delete 1 (snd (initialize example_env fresh_stack 0 ''Layer'' ''MATERIAL_FILL'' None True)) 0)
       = None
   \<and> name (layers (snd (delete 1
              (snd (initialize example_env fresh_stack 0 ''Layer'' ''MATERIAL_FILL'' None True)) 0)) ! 0)
       = []
   \<and> layer_type (layers (snd (delete 1
              (snd (initialize example_env fresh_stack 0 ''Layer'' ''MATERIAL_FILL'' None True)) 0)) ! 0)
       = ''MATERIAL_FILL''
   \<and> layers (snd (delete 1
              (snd (initialize example_env fresh_stack 0 ''Layer'' ''MATERIAL_FILL'' None True)) 0)) ! 0
       \<noteq> layers fresh_stack ! 0"
  by code_simp

section \<open>Sequences of operations\<close>

text \<open>
  The public operations that change the channels or the life cycle of a layer, as they
  reach the layer in a slot of the stack. A sequence of calls is run on the stack; a call
  that raises leaves the stack as the exception found it, and the sequence goes on.
\<close>

datatype layer_op =
    Initialize env string string "channel list option" bool
  | AddChannel env channel_arg
  | RemoveChannel channel_name_arg
  | ClearChannels
  | Delete

definition apply_op :: "nat \<Rightarrow> layer_stack \<Rightarrow> nat \<Rightarrow> layer_op \<Rightarrow> layer_stack" where
  "apply_op depth stk i op =
     (case op of
        Initialize e nm ltype chans enabled_channels_only \<Rightarrow>
          snd (initialize e stk i nm ltype chans enabled_channels_only)
      | AddChannel e arg \<Rightarrow>
          (if i < length (layers stk)
           then put_layer stk i (snd (snd (add_channel e (layers stk ! i) arg))) else stk)
      | RemoveChannel arg \<Rightarrow>
          (if i < length (layers stk)
           then put_layer stk i (snd (remove_channel (layers stk ! i) arg)) else stk)
      | ClearChannels \<Rightarrow>
          (if i < length (layers stk)
           then put_layer stk i (snd (clear_channels (layers stk ! i))) else stk)
      | Delete \<Rightarrow> snd (delete depth stk i))"

fun run_ops :: "nat \<Rightarrow> layer_stack \<Rightarrow> (nat \<times> layer_op) list \<Rightarrow> layer_stack" where
  "run_ops depth stk [] = stk"
| "run_ops depth stk ((i, op) # ops) = run_ops depth (apply_op depth stk i op) ops"

text \<open>The bounds of \<open>active_channel_index\<close>.\<close>

definition index_in_bounds :: "material_layer \<Rightarrow> bool" where
  "index_in_bounds self =
     (if channels self = [] then active_channel_index self = 0
      else 0 \<le> active_channel_index self
           \<and> active_channel_index self \<le> int (length (channels self)) - 1)"

text \<open>The indices of all slots, in order.\<close>

definition indices_of :: "layer_stack \<Rightarrow> int list" where
  "indices_of stk = map active_channel_index (layers stk)"

lemma indices_of_put_layer:
  "i < length (layers stk) \<Longrightarrow> active_channel_index l = active_channel_index (layers stk ! i)
   \<Longrightarrow> indices_of (put_layer stk i l) = indices_of stk"
  by (simp add: indices_of_def) (metis list_update_id map_update nth_map)

lemma length_indices_of [simp]: "length (indices_of stk) = length (layers stk)"
  by (simp add: indices_of_def)

subsection \<open>Operations on the channels keep an index of 0\<close>

lemma add_channel_index:
  "active_channel_index (snd (snd (add_channel e self arg))) = active_channel_index self"
  by (auto simp: add_channel_def ensure_node_tree_output_def Let_def refresh_preview_material_def
      split: channel_arg.split option.split)

lemma remove_channel_index_0:
  "active_channel_index self = 0 \<Longrightarrow> active_channel_index (snd (remove_channel self arg)) = 0"
  by (auto simp: remove_channel_def Let_def split: channel_name_arg.split option.split)

lemma remove_channels_index_0:
  "active_channel_index self = 0 \<Longrightarrow> active_channel_index (snd (remove_channels self nms)) = 0"
proof (induction nms arbitrary: self)
  case Nil
  then show ?case by simp
next
  case (Cons nm nms)
  obtain err self1 where r: "remove_channel self (NameStr nm) = (err, self1)"
    by (cases "remove_channel self (NameStr nm)")
  with remove_channel_index_0 [OF Cons.prems, of "NameStr nm"]
  have "active_channel_index self1 = 0" by simp
  with Cons.IH [of self1] r show ?case
    by (cases err) simp_all
qed

lemma clear_channels_index_0:
  "active_channel_index self = 0 \<Longrightarrow> active_channel_index (snd (clear_channels self)) = 0"
  by (simp add: clear_channels_def remove_channels_index_0)

subsection \<open>The life cycle keeps an index of 0\<close>

lemma zero_indices_put_layer:
  assumes "\<forall>l\<in>set (layers stk). active_channel_index l = 0" and "active_channel_index l' = 0"
  shows "\<forall>l\<in>set (layers (put_layer stk i l')). active_channel_index l = 0"
proof
  fix l assume "l \<in> set (layers (put_layer stk i l'))"
  then have "l = l' \<or> l \<in> set (layers stk)"
    using set_update_subset_insert [of "layers stk" i l'] by auto
  with assms show "active_channel_index l = 0" by auto
qed

lemma add_channels_index:
  "active_channel_index (snd (add_channels e self chs enabled_channels_only))
     = active_channel_index self"
proof (induction chs arbitrary: self)
  case Nil
  then show ?case by simp
next
  case (Cons ch chs)
  show ?case
  proof (cases "ch_enabled ch \<or> \<not> enabled_channels_only")
    case False
    with Cons.IH [of self] show ?thesis by simp
  next
    case True
    obtain r w self1 where a: "add_channel e self (BasicChannel ch) = (r, w, self1)"
      by (cases "add_channel e self (BasicChannel ch)") auto
    with add_channel_index [of e self "BasicChannel ch"]
    have "active_channel_index self1 = active_channel_index self" by simp
    with Cons.IH [of self1] a True show ?thesis
      by (cases r) simp_all
  qed
qed

lemma initialize_finish_index:
  "active_channel_index (snd (initialize_finish e self)) = active_channel_index self"
  by (simp add: initialize_finish_def Let_def allocate_image_to_layer_def
      create_preview_material_def)

lemma initialize_layer_index:
  "active_channel_index (snd (initialize_layer e self ltype chans enabled_channels_only)) = 0"
proof -
  define self2 where "self2 = self\<lparr>layer_type := ltype, enabled := True, opacity := 1,
      active_channel_index := 0,
      node_tree := Some \<lparr>nt_name = node_tree_name (self\<lparr>layer_type := ltype, enabled := True,
         opacity := 1, active_channel_index := 0\<rparr>), outputs = [], nodes = []\<rparr>\<rparr>"
  obtain err self3 where loop: "(case chans of None \<Rightarrow> (None, self2)
      | Some chs \<Rightarrow> add_channels e self2 chs enabled_channels_only) = (err, self3)"
    by (cases "case chans of None \<Rightarrow> (None, self2)
      | Some chs \<Rightarrow> add_channels e self2 chs enabled_channels_only")
  have "active_channel_index self3 = active_channel_index self2"
  proof (cases chans)
    case None
    with loop show ?thesis by simp
  next
    case (Some chs)
    with loop have "snd (add_channels e self2 chs enabled_channels_only) = self3" by simp
    with add_channels_index [of e self2 chs enabled_channels_only] show ?thesis by simp
  qed
  then have zero: "active_channel_index self3 = 0"
    by (simp add: self2_def)
  have "initialize_layer e self ltype chans enabled_channels_only
      = (case (err, self3) of (Some err, self) \<Rightarrow> (Some err, self)
         | (None, self) \<Rightarrow> initialize_finish e self)"
    unfolding loop [symmetric] initialize_layer_def Let_def self2_def by (rule refl)
  then show ?thesis
    using zero initialize_finish_index [of e self3] by (cases err) simp_all
qed

lemma initialize_zero_indices:
  assumes "\<forall>l\<in>set (layers stk). active_channel_index l = 0"
  shows "\<forall>l\<in>set (layers (snd (initialize e stk i nm ltype chans enabled_channels_only))).
           active_channel_index l = 0"
proof (cases "i < length (layers stk) \<and> attached e \<and> \<not> is_initialized (layers stk ! i)
    \<and> ltype \<in> VALID_LAYER_TYPES")
  case False
  then have "snd (initialize e stk i nm ltype chans enabled_channels_only) = stk"
    by (auto simp: initialize_def)
  with assms show ?thesis by simp
next
  case True
  define stk1 where "stk1 = put_layer stk i ((layers stk ! i)\<lparr>identifier := new_identifier e\<rparr>)"
  have i1: "i < length (layers stk1)" using True by (simp add: stk1_def)
  from set_name_eq [OF i1, of nm] obtain l2 where
    named: "set_name stk1 i nm = (None, put_layer stk1 i l2)" by blast
  have slot: "layers (put_layer stk1 i l2) ! i = l2" using i1 by simp
  obtain err l3 where rest: "initialize_layer e l2 ltype chans enabled_channels_only = (err, l3)"
    by (cases "initialize_layer e l2 ltype chans enabled_channels_only")
  then have zero: "active_channel_index l3 = 0"
    using initialize_layer_index [of e l2 ltype chans enabled_channels_only] by simp
  have "snd (initialize e stk i nm ltype chans enabled_channels_only) = put_layer stk i l3"
    using True
    by (simp add: initialize_def Let_def stk1_def [symmetric] named slot rest del: layers_put_layer)
      (simp add: stk1_def)
  with zero_indices_put_layer [OF assms zero] show ?thesis by simp
qed

lemma delete_resources_indices:
  assumes i: "i < length (layers stk)"
  shows "indices_of (snd (delete_resources stk i)) = indices_of stk"
proof -
  define self where "self = (layers stk ! i)\<lparr>children := [], channels := [], node_tree := None,
                                   node_mask := None, preview_material := None\<rparr>"
  define stk0 where "stk0 = put_layer stk i self"
  have i0: "i < length (layers stk0)" using i by (simp add: stk0_def)
  from set_name_eq [OF i0, of "[]"] obtain u where
    named: "set_name stk0 i [] = (None, put_layer stk0 i (renamed (layers stk0 ! i) u))"
    by blast
  have "snd (delete_resources stk i) = put_layer stk0 i (renamed (layers stk0 ! i) u)"
    by (simp add: delete_resources_def Let_def self_def [symmetric] stk0_def [symmetric] named
        del: layers_put_layer)
  also have "\<dots> = put_layer stk i (renamed self u)"
    using i by (simp add: stk0_def)
  finally show ?thesis
    using i by (simp add: indices_of_put_layer renamed_def self_def)
qed

lemma delete_detach_index:
  "active_channel_index (snd (delete_detach self)) = active_channel_index self"
  by (simp add: delete_detach_eq)

lemma delete_indices:
  "indices_of (snd (delete depth stk i)) = indices_of stk"
  "indices_of (snd (delete_children depth stk refs)) = indices_of stk"
proof (induction depth stk i and depth stk refs rule: delete_delete_children.induct)
  case (1 stk i)
  show ?case by simp
next
  case (2 depth stk i)
  show ?case
  proof (cases "i < length (layers stk) \<and> is_initialized (layers stk ! i)")
    case False
    then show ?thesis by auto
  next
    case True
    obtain self where detach: "delete_detach (layers stk ! i) = (None, self)"
      using delete_detach_eq by blast
    have idx: "active_channel_index self = active_channel_index (layers stk ! i)"
      using delete_detach_index [of "layers stk ! i"] detach by simp
    obtain err stk1 where kids:
      "delete_children depth (put_layer stk i self) (children self) = (err, stk1)"
      by (cases "delete_children depth (put_layer stk i self) (children self)")
    have "indices_of stk1 = indices_of (put_layer stk i self)"
      using "2.IH" True detach kids by simp
    then have same: "indices_of stk1 = indices_of stk"
      using True idx by (simp add: indices_of_put_layer)
    then have "length (layers stk1) = length (layers stk)"
      by (metis length_indices_of)
    then have "indices_of (snd (delete_resources stk1 i)) = indices_of stk1"
      using True by (intro delete_resources_indices) simp
    with same True detach kids show ?thesis
      by (cases err) simp_all
  qed
next
  case (3 depth stk)
  show ?case by simp
next
  case (4 depth stk child rest)
  show ?case
  proof (cases "resolve stk child")
    case (Inl err)
    then show ?thesis by simp
  next
    case (Inr found)
    show ?thesis
    proof (cases found)
      case None
      with Inr show ?thesis by simp
    next
      case (Some jl)
      obtain j child_layer where jl: "jl = (j, child_layer)" by (cases jl)
      obtain err stk1 where d: "delete depth stk j = (err, stk1)"
        by (cases "delete depth stk j")
      have one: "indices_of stk1 = indices_of stk"
        using "4.IH"(1) [of "Some (j, child_layer)" "(j, child_layer)" j child_layer] Inr Some jl d
        by simp
      show ?thesis
      proof (cases err)
        case None
        have "indices_of (snd (delete_children depth stk1 rest)) = indices_of stk1"
          using "4.IH"(2) [of "Some (j, child_layer)" "(j, child_layer)" j child_layer
              None stk1] Inr Some jl d None
          by simp
        with one Inr Some jl d None show ?thesis by simp
      next
        case (Some e)
        with one Inr \<open>found = Some jl\<close> jl d show ?thesis by simp
      qed
    qed
  qed
qed

lemma apply_op_zero_indices:
  assumes "\<forall>l\<in>set (layers stk). active_channel_index l = 0"
  shows "\<forall>l\<in>set (layers (apply_op depth stk i op)). active_channel_index l = 0"
proof (cases op)
  case (Initialize e nm ltype chans enabled_channels_only)
  with initialize_zero_indices [OF assms] show ?thesis by (simp add: apply_op_def)
next
  case (AddChannel e arg)
  show ?thesis
  proof (cases "i < length (layers stk)")
    case True
    with assms have "active_channel_index (layers stk ! i) = 0" by simp
    then have "active_channel_index (snd (snd (add_channel e (layers stk ! i) arg))) = 0"
      by (simp add: add_channel_index)
    from zero_indices_put_layer [OF assms this] True AddChannel show ?thesis
      by (simp add: apply_op_def)
  next
    case False
    with assms AddChannel show ?thesis by (simp add: apply_op_def)
  qed
next
  case (RemoveChannel arg)
  show ?thesis
  proof (cases "i < length (layers stk)")
    case True
    with assms have "active_channel_index (layers stk ! i) = 0" by simp
    then have "active_channel_index (snd (remove_channel (layers stk ! i) arg)) = 0"
      by (rule remove_channel_index_0)
    from zero_indices_put_layer [OF assms this] True RemoveChannel show ?thesis
      by (simp add: apply_op_def)
  next
    case False
    with assms RemoveChannel show ?thesis by (simp add: apply_op_def)
  qed
next
  case ClearChannels
  show ?thesis
  proof (cases "i < length (layers stk)")
    case True
    with assms have "active_channel_index (layers stk ! i) = 0" by simp
    then have "active_channel_index (snd (clear_channels (layers stk ! i))) = 0"
      by (rule clear_channels_index_0)
    from zero_indices_put_layer [OF assms this] True ClearChannels show ?thesis
      by (simp add: apply_op_def)
  next
    case False
    with assms ClearChannels show ?thesis by (simp add: apply_op_def)
  qed
next
  case Delete
  have "indices_of (snd (delete depth stk i)) = indices_of stk"
    by (rule delete_indices)
  then have "active_channel_index ` set (layers (snd (delete depth stk i)))
      = active_channel_index ` set (layers stk)"
    by (metis indices_of_def set_map)
  with assms Delete show ?thesis
    by (auto simp: apply_op_def)
qed

lemma run_ops_zero_indices:
  "\<forall>l\<in>set (layers stk). active_channel_index l = 0 \<Longrightarrow>
   \<forall>l\<in>set (layers (run_ops depth stk ops)). active_channel_index l = 0"
proof (induction ops arbitrary: stk)
  case Nil
  then show ?case by simp
next
  case (Cons iop ops)
  obtain i op where iop: "iop = (i, op)" by (cases iop)
  from apply_op_zero_indices [OF Cons.prems, of depth i op]
  have "\<forall>l\<in>set (layers (run_ops depth (apply_op depth stk i op) ops)). active_channel_index l = 0"
    by (rule Cons.IH)
  with iop show ?case by simp
qed

lemma index_0_in_bounds: "active_channel_index self = 0 \<Longrightarrow> index_in_bounds self"
  by (cases "channels self") (simp_all add: index_in_bounds_def)

subsection \<open>\<open>remove_channel\<close> shifts and clamps the index\<close>

lemma channels_find_bounds:
  "channels_get chs nm = Some c \<Longrightarrow>
   0 \<le> channels_find chs nm \<and> channels_find chs nm < int (length chs)"
proof (induction chs)
  case Nil
  then show ?case by (simp add: channels_get_def)
next
  case (Cons a chs)
  show ?case
  proof (cases "ch_name a = nm")
    case True
    then show ?thesis by simp
  next
    case False
    with Cons.prems have "channels_get chs nm = Some c"
      by (simp add: channels_get_def)
    from Cons.IH [OF this] False show ?thesis
      by (simp add: Let_def)
  qed
qed

lemma length_collection_remove:
  "k < length xs \<Longrightarrow> int (length (collection_remove xs k)) = int (length xs) - 1"
  by (simp add: collection_remove_def)

lemma remove_channel_result:
  assumes "remove_channel self (NameStr nm) = (None, self')"
  shows "0 \<le> channels_find (channels self) nm"
    and "channels_find (channels self) nm < int (length (channels self))"
    and "channels self' = collection_remove (channels self) (nat (channels_find (channels self) nm))"
    and "active_channel_index self'
           = max (min (if channels_find (channels self) nm < active_channel_index self
                       then active_channel_index self - 1 else active_channel_index self)
                      (int (length (channels self')) - 1)) 0"
proof -
  from assms obtain c where get: "channels_get (channels self) nm = Some c"
    by (cases "channels_get (channels self) nm") (simp_all add: remove_channel_def)
  from channels_find_bounds [OF this]
  show bounds: "0 \<le> channels_find (channels self) nm"
    "channels_find (channels self) nm < int (length (channels self))"
    by simp_all
  from assms get bounds obtain nt where tree: "node_tree self = Some nt"
    by (cases "node_tree self") (simp_all add: remove_channel_def Let_def)
  from assms get bounds tree
  show "channels self' = collection_remove (channels self) (nat (channels_find (channels self) nm))"
    by (auto simp: remove_channel_def Let_def split: if_splits)
  from assms get bounds tree
  show "active_channel_index self'
           = max (min (if channels_find (channels self) nm < active_channel_index self
                       then active_channel_index self - 1 else active_channel_index self)
                      (int (length (channels self')) - 1)) 0"
    by (auto simp: remove_channel_def Let_def split: if_splits)
qed

subsection \<open>Operations that keep an index within its bounds\<close>

text \<open>
  A layer without a node tree makes \<open>remove_channel\<close> raise after the channel has left
  the list and before the index is clamped. The bounds are kept from the states in which
  such a layer has the index 0.
\<close>

definition index_guarded :: "material_layer \<Rightarrow> bool" where
  "index_guarded self =
     (index_in_bounds self
      \<and> (case node_tree self of None \<Rightarrow> active_channel_index self = 0 | Some nt \<Rightarrow> True))"

text \<open>The sequences without \<open>delete\<close>.\<close>

fun is_delete :: "layer_op \<Rightarrow> bool" where
  "is_delete Delete = True"
| "is_delete op = False"

definition no_delete :: "(nat \<times> layer_op) list \<Rightarrow> bool" where
  "no_delete ops = list_all (\<lambda>iop. \<not> is_delete (snd iop)) ops"

lemma index_0_guarded: "active_channel_index self = 0 \<Longrightarrow> index_guarded self"
  by (simp add: index_guarded_def index_0_in_bounds split: option.split)

lemma index_guarded_tree:
  "node_tree self = Some nt \<Longrightarrow> index_in_bounds self \<Longrightarrow> index_guarded self"
  by (simp add: index_guarded_def)

lemma add_channel_guarded:
  assumes "index_guarded self"
  shows "index_guarded (snd (snd (add_channel e self arg)))"
proof (cases "node_tree self")
  case None
  with assms have "active_channel_index self = 0" by (simp add: index_guarded_def)
  then have "active_channel_index (snd (snd (add_channel e self arg))) = 0"
    by (simp add: add_channel_index)
  then show ?thesis by (rule index_0_guarded)
next
  case (Some nt)
  from assms have b: "index_in_bounds self" by (simp add: index_guarded_def)
  show ?thesis
  proof (cases arg)
    case NotAChannel
    with assms show ?thesis by (simp add: add_channel_def)
  next
    case (BasicChannel ch)
    show ?thesis
    proof (cases "channels_get (channels self) (ch_name ch)")
      case (Some existing)
      with BasicChannel assms show ?thesis by (simp add: add_channel_def)
    next
      case None
      define self1 where "self1 = self\<lparr>channels := channels self @ [init_from_channel ch]\<rparr>"
      obtain self2 where ens: "ensure_node_tree_output e self1 ch = Inr self2"
        and ch2: "channels self2 = channels self1"
        and idx2: "active_channel_index self2 = active_channel_index self1"
        and nt2: "node_tree self2 \<noteq> None"
        using \<open>node_tree self = Some nt\<close>
        by (cases "outputs_get (outputs nt) (ch_name ch)")
          (simp_all add: ensure_node_tree_output_def self1_def Let_def)
      have res: "snd (snd (add_channel e self arg)) = self2"
        using BasicChannel None ens
        by (simp add: add_channel_def Let_def self1_def [symmetric] refresh_preview_material_def)
      have "index_in_bounds self2"
        using b ch2 idx2
        by (cases "channels self") (simp_all add: index_in_bounds_def self1_def)
      with nt2 res show ?thesis
        by (auto simp: index_guarded_def split: option.split)
    qed
  qed
qed

lemma remove_channel_name:
  "remove_channel self (NameChannel c) = remove_channel self (NameStr (ch_name c))"
  by (simp add: remove_channel_def)

lemma remove_channel_returns:
  assumes r: "remove_channel self (NameStr nm) = (None, self')"
  shows "index_in_bounds self'" and "node_tree self' \<noteq> None"
proof -
  note res = remove_channel_result [OF r]
  show "index_in_bounds self'"
  proof (cases "channels self'")
    case Nil
    with res(4) show ?thesis by (simp add: index_in_bounds_def)
  next
    case (Cons c cs)
    then have "1 \<le> int (length (channels self'))" by simp
    with res(4) Cons show ?thesis by (simp add: index_in_bounds_def)
  qed
  from r obtain c where get: "channels_get (channels self) nm = Some c"
    by (cases "channels_get (channels self) nm") (simp_all add: remove_channel_def)
  from r get res(1) show "node_tree self' \<noteq> None"
    by (cases "node_tree self") (auto simp: remove_channel_def Let_def split: if_splits)
qed

lemma remove_channel_raises:
  assumes "remove_channel self (NameStr nm) = (Some err, self')" and "node_tree self = Some nt"
  shows "self' = self"
  using assms
  by (cases "channels_get (channels self) nm")
    (auto simp: remove_channel_def Let_def split: if_splits)

lemma remove_channel_str_guarded:
  assumes "index_guarded self"
  shows "index_guarded (snd (remove_channel self (NameStr nm)))"
proof (cases "node_tree self")
  case None
  with assms have "active_channel_index self = 0" by (simp add: index_guarded_def)
  then have "active_channel_index (snd (remove_channel self (NameStr nm))) = 0"
    by (rule remove_channel_index_0)
  then show ?thesis by (rule index_0_guarded)
next
  case (Some nt)
  obtain err self' where r: "remove_channel self (NameStr nm) = (err, self')"
    by (cases "remove_channel self (NameStr nm)")
  show ?thesis
  proof (cases err)
    case None
    with r remove_channel_returns [of self nm self'] show ?thesis
      by (auto simp: index_guarded_def split: option.split)
  next
    case (Some e)
    with r remove_channel_raises [of self nm e self' nt] \<open>node_tree self = Some nt\<close> assms
    show ?thesis by simp
  qed
qed

lemma remove_channel_guarded:
  assumes "index_guarded self"
  shows "index_guarded (snd (remove_channel self arg))"
proof (cases arg)
  case (NameStr nm)
  with remove_channel_str_guarded [OF assms] show ?thesis by simp
next
  case (NameChannel c)
  with remove_channel_str_guarded [OF assms, of "ch_name c"] show ?thesis
    by (simp add: remove_channel_name)
next
  case NameOther
  with assms show ?thesis by (simp add: remove_channel_def)
qed

lemma remove_channels_guarded:
  "index_guarded self \<Longrightarrow> index_guarded (snd (remove_channels self nms))"
proof (induction nms arbitrary: self)
  case Nil
  then show ?case by simp
next
  case (Cons nm nms)
  obtain err self1 where r: "remove_channel self (NameStr nm) = (err, self1)"
    by (cases "remove_channel self (NameStr nm)")
  with remove_channel_guarded [OF Cons.prems, of "NameStr nm"]
  have "index_guarded self1" by simp
  with Cons.IH [of self1] r show ?case
    by (cases err) simp_all
qed

lemma clear_channels_guarded:
  "index_guarded self \<Longrightarrow> index_guarded (snd (clear_channels self))"
  by (simp add: clear_channels_def remove_channels_guarded)

lemma guarded_put_layer:
  assumes "\<forall>l\<in>set (layers stk). index_guarded l" and "index_guarded l'"
  shows "\<forall>l\<in>set (layers (put_layer stk i l')). index_guarded l"
proof
  fix l assume "l \<in> set (layers (put_layer stk i l'))"
  then have "l = l' \<or> l \<in> set (layers stk)"
    using set_update_subset_insert [of "layers stk" i l'] by auto
  with assms show "index_guarded l" by auto
qed

lemma initialize_result:
  "snd (initialize e stk i nm ltype chans enabled_channels_only) = stk
   \<or> (\<exists>l. snd (initialize e stk i nm ltype chans enabled_channels_only) = put_layer stk i l
          \<and> active_channel_index l = 0)"
proof (cases "i < length (layers stk) \<and> attached e \<and> \<not> is_initialized (layers stk ! i)
    \<and> ltype \<in> VALID_LAYER_TYPES")
  case False
  then have "snd (initialize e stk i nm ltype chans enabled_channels_only) = stk"
    by (auto simp: initialize_def)
  then show ?thesis by simp
next
  case True
  define stk1 where "stk1 = put_layer stk i ((layers stk ! i)\<lparr>identifier := new_identifier e\<rparr>)"
  have i1: "i < length (layers stk1)" using True by (simp add: stk1_def)
  from set_name_eq [OF i1, of nm] obtain l2 where
    named: "set_name stk1 i nm = (None, put_layer stk1 i l2)" by blast
  have slot: "layers (put_layer stk1 i l2) ! i = l2" using i1 by simp
  obtain err l3 where rest: "initialize_layer e l2 ltype chans enabled_channels_only = (err, l3)"
    by (cases "initialize_layer e l2 ltype chans enabled_channels_only")
  then have zero: "active_channel_index l3 = 0"
    using initialize_layer_index [of e l2 ltype chans enabled_channels_only] by simp
  have "snd (initialize e stk i nm ltype chans enabled_channels_only) = put_layer stk i l3"
    using True
    by (simp add: initialize_def Let_def stk1_def [symmetric] named slot rest del: layers_put_layer)
      (simp add: stk1_def)
  with zero show ?thesis by blast
qed

lemma apply_op_guarded:
  assumes all: "\<forall>l\<in>set (layers stk). index_guarded l" and op: "\<not> is_delete op"
  shows "\<forall>l\<in>set (layers (apply_op depth stk i op)). index_guarded l"
proof (cases op)
  case (Initialize e nm ltype chans enabled_channels_only)
  from initialize_result [of e stk i nm ltype chans enabled_channels_only]
  show ?thesis
  proof
    assume "snd (initialize e stk i nm ltype chans enabled_channels_only) = stk"
    with all Initialize show ?thesis by (simp add: apply_op_def)
  next
    assume "\<exists>l. snd (initialize e stk i nm ltype chans enabled_channels_only) = put_layer stk i l
          \<and> active_channel_index l = 0"
    then obtain l where
      res: "snd (initialize e stk i nm ltype chans enabled_channels_only) = put_layer stk i l"
      and "active_channel_index l = 0" by blast
    then have "index_guarded l" by (simp add: index_0_guarded)
    from guarded_put_layer [OF all this, of i] res Initialize show ?thesis
      by (simp add: apply_op_def)
  qed
next
  case (AddChannel e arg)
  show ?thesis
  proof (cases "i < length (layers stk)")
    case True
    with all have "index_guarded (layers stk ! i)" by simp
    then have "index_guarded (snd (snd (add_channel e (layers stk ! i) arg)))"
      by (rule add_channel_guarded)
    from guarded_put_layer [OF all this] True AddChannel show ?thesis
      by (simp add: apply_op_def)
  next
    case False
    with all AddChannel show ?thesis by (simp add: apply_op_def)
  qed
next
  case (RemoveChannel arg)
  show ?thesis
  proof (cases "i < length (layers stk)")
    case True
    with all have "index_guarded (layers stk ! i)" by simp
    then have "index_guarded (snd (remove_channel (layers stk ! i) arg))"
      by (rule remove_channel_guarded)
    from guarded_put_layer [OF all this] True RemoveChannel show ?thesis
      by (simp add: apply_op_def)
  next
    case False
    with all RemoveChannel show ?thesis by (simp add: apply_op_def)
  qed
next
  case ClearChannels
  show ?thesis
  proof (cases "i < length (layers stk)")
    case True
    with all have "index_guarded (layers stk ! i)" by simp
    then have "index_guarded (snd (clear_channels (layers stk ! i)))"
      by (rule clear_channels_guarded)
    from guarded_put_layer [OF all this] True ClearChannels show ?thesis
      by (simp add: apply_op_def)
  next
    case False
    with all ClearChannels show ?thesis by (simp add: apply_op_def)
  qed
next
  case Delete
  with op show ?thesis by simp
qed

lemma run_ops_guarded:
  "\<forall>l\<in>set (layers stk). index_guarded l \<Longrightarrow> no_delete ops \<Longrightarrow>
   \<forall>l\<in>set (layers (run_ops depth stk ops)). index_guarded l"
proof (induction ops arbitrary: stk)
  case Nil
  then show ?case by simp
next
  case (Cons iop ops)
  obtain i op where iop: "iop = (i, op)" by (cases iop)
  with Cons.prems(2) have op: "\<not> is_delete op" and rest: "no_delete ops"
    by (simp_all add: no_delete_def)
  from apply_op_guarded [OF Cons.prems(1) op, of depth i]
  have "\<forall>l\<in>set (layers (run_ops depth (apply_op depth stk i op) ops)). index_guarded l"
    using rest by (rule Cons.IH)
  with iop show ?case by simp
qed

text \<open>
  The index is written from outside the five operations as well: by the host's interface,
  and by the setter of \<open>active_channel\<close>, which stores the position of the channel it
  is given.
\<close>

definition set_active_channel :: "material_layer \<Rightarrow> channel \<Rightarrow> error option \<times> material_layer" where
  "set_active_channel self ch =
     (let ch_idx = channels_find (channels self) (ch_name ch)
      in if ch_idx < 0 then (Some ValueError, self)
         else (None, self\<lparr>active_channel_index := ch_idx\<rparr>))"

text \<open>
  A run of all five operations on two slots; a layer whose second channel is active, in a
  stack with a new slot; a run without \<open>delete\<close>; and the same layer without its node
  tree.
\<close>

definition example_ops :: "(nat \<times> layer_op) list" where
  "example_ops =
     [(0, Initialize example_env ''Layer'' ''MATERIAL_PAINT'' (Some [color_channel]) True),
      (0, AddChannel example_env (BasicChannel (color_channel\<lparr>ch_name := ''Roughness''\<rparr>))),
      (1, AddChannel example_env (BasicChannel color_channel)),
      (0, RemoveChannel (NameStr ''Color'')),
      (0, RemoveChannel (NameStr ''Metallic'')),
      (1, Delete),
      (0, ClearChannels),
      (0, Delete)]"

definition two_channel_layer :: material_layer where
  "two_channel_layer =
     default_layer\<lparr>identifier := ''ab12'',
       channels := [color_channel, color_channel\<lparr>ch_name := ''Roughness''\<rparr>],
       active_channel_index := 1,
       node_tree := Some \<lparr>nt_name = ''.Layer'',
                          outputs = [color_output, color_output\<lparr>sock_name := ''Roughness''\<rparr>],
                          nodes = []\<rparr>\<rparr>"

definition two_channel_stack :: layer_stack where
  "two_channel_stack = \<lparr>layers = [two_channel_layer, default_layer]\<rparr>"

definition channel_ops :: "(nat \<times> layer_op) list" where
  "channel_ops =
     [(0, AddChannel example_env (BasicChannel (color_channel\<lparr>ch_name := ''Metallic''\<rparr>))),
      (0, RemoveChannel (NameStr ''Metallic'')),
      (1, Initialize example_env ''Layer'' ''MATERIAL_PAINT'' (Some [color_channel]) True),
      (1, RemoveChannel (NameStr ''Roughness'')),
      (1, ClearChannels),
      (0, RemoveChannel NameOther)]"

definition treeless_layer :: material_layer where
  "treeless_layer = two_channel_layer\<lparr>node_tree := None\<rparr>"

text \<open>
  The index 1 of \<open>two_channel_layer\<close> is the one the setter of \<open>active_channel\<close> stores
  for the second channel.
\<close>

lemma two_channel_layer_active:
  "set_active_channel (two_channel_layer\<lparr>active_channel_index := 0\<rparr>)
       (color_channel\<lparr>ch_name := ''Roughness''\<rparr>)
     = (None, two_channel_layer)"
  by (simp add: set_active_channel_def two_channel_layer_def color_channel_def Let_def)




section \<open>Hierarchy\<close>

text \<open>
  \<open>siblings.index(self)\<close>: the position of the first reference that equals the layer,
  by \<open>MaterialLayerRef.__eq__\<close>; \<open>None\<close> stands for the \<open>ValueError\<close> of a layer that is
  not in the list.
\<close>

fun siblings_index :: "material_layer_ref list \<Rightarrow> material_layer \<Rightarrow> nat option" where
  "siblings_index [] self = None"
| "siblings_index (x # xs) self =
     (if ref_eq_layer x self then Some 0 else map_option Suc (siblings_index xs self))"

text \<open>Indexing a Python list: a negative index counts from the end.\<close>

definition list_getitem :: "'a list \<Rightarrow> int \<Rightarrow> error + 'a" where
  "list_getitem xs k =
     (let n = int (length xs); j = (if k < 0 then n + k else k)
      in if 0 \<le> j \<and> j < n then Inr (xs ! nat j) else Inl IndexError)"

text \<open>\<open>ref.resolve()\<close> as an expression: the layer found, or \<open>None\<close>.\<close>

definition resolve_layer :: "layer_stack \<Rightarrow> material_layer_ref \<Rightarrow> error + material_layer option" where
  "resolve_layer stk r =
     (case resolve stk r of Inl err \<Rightarrow> Inl err | Inr found \<Rightarrow> Inr (map_option snd found))"

text \<open>
  Calling a collection property. \<open>children\<close> is a \<open>CollectionProperty\<close>, and the
  collection it holds is not callable: the call \<open>children()\<close> raises \<open>TypeError\<close>,
  whatever the collection.
\<close>

definition collection_call :: "'a list \<Rightarrow> error + 'a list" where
  "collection_call xs = Inl TypeError"

text \<open>
  The last two statements of \<open>get_layer_above\<close> and of \<open>get_layer_below\<close>, on the list
  \<open>siblings\<close>: the position of the layer, the test for the end of the list, and the
  neighbour.
\<close>

definition sibling_above ::
  "layer_stack \<Rightarrow> material_layer_ref list \<Rightarrow> material_layer \<Rightarrow> error + material_layer option" where
  "sibling_above stk siblings self =
     (case siblings_index siblings self of
        None \<Rightarrow> Inl ValueError
      | Some idx \<Rightarrow>
          (if int idx + 1 = int (length siblings) then Inr None
           else (case list_getitem siblings (int idx + 1) of
                   Inl err \<Rightarrow> Inl err
                 | Inr r \<Rightarrow> resolve_layer stk r)))"

definition sibling_below ::
  "layer_stack \<Rightarrow> material_layer_ref list \<Rightarrow> material_layer \<Rightarrow> error + material_layer option" where
  "sibling_below stk siblings self =
     (case siblings_index siblings self of
        None \<Rightarrow> Inl ValueError
      | Some idx \<Rightarrow>
          (if int idx - 1 = 0 then Inr None
           else (case list_getitem siblings (int idx - 1) of
                   Inl err \<Rightarrow> Inl err
                 | Inr r \<Rightarrow> resolve_layer stk r)))"

text \<open>
  \<open>get_layer_above\<close> and \<open>get_layer_below\<close>. For a layer without parent the stack's own
  method answers; it is the first parameter. For a layer with a parent the source
  evaluates \<open>self.parent.resolve().children()\<close>: the parent is resolved, then its
  collection of children is called, which raises. The comprehension
  \<open>[x for x in ... if x]\<close>, which would keep the references that are set, and the
  statements after it are behind that call.
\<close>

definition get_layer_above ::
  "(material_layer \<Rightarrow> material_layer option) \<Rightarrow> layer_stack \<Rightarrow> material_layer
     \<Rightarrow> error + material_layer option" where
  "get_layer_above stack_get_layer_above stk self =
     (if \<not> is_initialized self then Inl RuntimeError
      else if \<not> ref_bool (parent self) then Inr (stack_get_layer_above self)
      else
        (case resolve_layer stk (parent self) of
           Inl err \<Rightarrow> Inl err
         | Inr None \<Rightarrow> Inl AttributeError
         | Inr (Some parent_layer) \<Rightarrow>
             (case collection_call (children parent_layer) of
                Inl err \<Rightarrow> Inl err
              | Inr called \<Rightarrow> sibling_above stk (filter ref_bool called) self)))"

definition get_layer_below ::
  "(material_layer \<Rightarrow> material_layer option) \<Rightarrow> layer_stack \<Rightarrow> material_layer
     \<Rightarrow> error + material_layer option" where
  "get_layer_below stack_get_layer_below stk self =
     (if \<not> is_initialized self then Inl RuntimeError
      else if \<not> ref_bool (parent self) then Inr (stack_get_layer_below self)
      else
        (case resolve_layer stk (parent self) of
           Inl err \<Rightarrow> Inl err
         | Inr None \<Rightarrow> Inl AttributeError
         | Inr (Some parent_layer) \<Rightarrow>
             (case collection_call (children parent_layer) of
                Inl err \<Rightarrow> Inl err
              | Inr called \<Rightarrow> sibling_below stk (filter ref_bool called) self)))"

text \<open>
  \<open>stack_depth\<close>. The property calls itself on the grandparent; the first argument is the
  number of nested calls the interpreter's recursion limit still permits, and at the
  limit the call raises \<open>RecursionError\<close>. A parent reference that is dangling resolves
  to \<open>None\<close>, and reading an attribute of it raises.
\<close>

fun stack_depth :: "nat \<Rightarrow> layer_stack \<Rightarrow> material_layer \<Rightarrow> error + int" where
  "stack_depth 0 stk self = Inl RecursionError"
| "stack_depth (Suc limit) stk self =
     (if \<not> ref_bool (parent self) then Inr 0
      else
        (case resolve_layer stk (parent self) of
           Inl err \<Rightarrow> Inl err
         | Inr None \<Rightarrow> Inl AttributeError
         | Inr (Some parent_layer) \<Rightarrow>
             (if \<not> ref_bool (parent parent_layer) then Inr 1
              else
                (case resolve_layer stk (parent parent_layer) of
                   Inl err \<Rightarrow> Inl err
                 | Inr None \<Rightarrow> Inl AttributeError
                 | Inr (Some grandparent) \<Rightarrow>
                     (case stack_depth limit stk grandparent of
                        Inl err \<Rightarrow> Inl err
                      | Inr d \<Rightarrow> Inr (d + 2))))))"

text \<open>
  \<open>descendents\<close>, with the same bound on the nested calls of the property. The loop
  over the children carries the list built so far.
\<close>

fun descendents :: "nat \<Rightarrow> layer_stack \<Rightarrow> material_layer \<Rightarrow> error + material_layer list"
  and descendents_loop ::
    "nat \<Rightarrow> layer_stack \<Rightarrow> material_layer_ref list \<Rightarrow> material_layer list
       \<Rightarrow> error + material_layer list"
where
  "descendents 0 stk self = Inl RecursionError"
| "descendents (Suc limit) stk self = descendents_loop limit stk (children self) []"
| "descendents_loop limit stk [] acc = Inr acc"
| "descendents_loop limit stk (child_layer_ref # rest) acc =
     (case resolve_layer stk child_layer_ref of
        Inl err \<Rightarrow> Inl err
      | Inr None \<Rightarrow> Inl AttributeError
      | Inr (Some child_layer) \<Rightarrow>
          (if children child_layer \<noteq> []
           then (case descendents limit stk child_layer of
                   Inl err \<Rightarrow> Inl err
                 | Inr ds \<Rightarrow> descendents_loop limit stk rest (acc @ ds @ [child_layer]))
           else descendents_loop limit stk rest (acc @ [child_layer])))"

text \<open>Layers of a small hierarchy, by identifier, parent and children.\<close>

definition ref_to :: "string \<Rightarrow> material_layer_ref" where
  "ref_to ident = \<lparr>ref_name = ident, layer_stack_id = ''stack''\<rparr>"

definition member_layer :: "string \<Rightarrow> string \<Rightarrow> string list \<Rightarrow> material_layer" where
  "member_layer ident parent_ident child_idents =
     default_layer\<lparr>identifier := ident, name := ident,
       parent := (if parent_ident = [] then empty_ref else ref_to parent_ident),
       children := map ref_to child_idents\<rparr>"

definition family_stack :: layer_stack where
  "family_stack =
     \<lparr>layers = [member_layer ''root'' [] [''A'', ''B''],
                member_layer ''A'' ''root'' [''A1''],
                member_layer ''B'' ''root'' [''B1'', ''B2''],
                member_layer ''A1'' ''A'' [],
                member_layer ''B1'' ''B'' [],
                member_layer ''B2'' ''B'' []]\<rparr>"

text \<open>
  The number of ancestors of a layer: \<open>n\<close> parent links, each set and resolving, lead to
  a layer without parent.
\<close>

fun has_ancestors :: "layer_stack \<Rightarrow> material_layer \<Rightarrow> nat \<Rightarrow> bool" where
  "has_ancestors stk self 0 = (\<not> ref_bool (parent self))"
| "has_ancestors stk self (Suc n) =
     (ref_bool (parent self)
      \<and> (case resolve_layer stk (parent self) of
            Inr (Some parent_layer) \<Rightarrow> has_ancestors stk parent_layer n
          | _ \<Rightarrow> False))"

text \<open>A chain of layers \<open>L0\<close>, \<open>L1\<close>, ..., each the parent of the next.\<close>

definition chain_identifier :: "nat \<Rightarrow> string" where
  "chain_identifier k = CHR ''L'' # decimal k"

definition chain_layer :: "nat \<Rightarrow> material_layer" where
  "chain_layer k =
     default_layer\<lparr>identifier := chain_identifier k, name := chain_identifier k,
       parent := (if k = 0 then empty_ref else ref_to (chain_identifier (k - 1)))\<rparr>"

definition chain_stack :: "nat \<Rightarrow> layer_stack" where
  "chain_stack n = \<lparr>layers = map chain_layer [0..<Suc n]\<rparr>"

text \<open>At least \<open>n\<close> parent links can be followed from the layer, as on a cycle for every \<open>n\<close>.\<close>

fun has_parent_chain :: "layer_stack \<Rightarrow> material_layer \<Rightarrow> nat \<Rightarrow> bool" where
  "has_parent_chain stk self 0 = True"
| "has_parent_chain stk self (Suc n) =
     (ref_bool (parent self)
      \<and> (case resolve_layer stk (parent self) of
            Inr (Some parent_layer) \<Rightarrow> has_parent_chain stk parent_layer n
          | _ \<Rightarrow> False))"

text \<open>Two layers that are each other's parent.\<close>

definition cyclic_stack :: layer_stack where
  "cyclic_stack = \<lparr>layers = [member_layer ''X'' ''Y'' [''Y''], member_layer ''Y'' ''X'' [''X'']]\<rparr>"

subsection \<open>The layer below\<close>

text \<open>
  Claim C2, evaluated on the code. Under an initialized parent with the children \<open>A\<close>,
  \<open>B\<close> (in this order, both initialized), \<open>get_layer_below\<close> returns neither the sibling
  below nor \<open>None\<close>: for \<open>B\<close> as for \<open>A\<close> it raises \<open>TypeError\<close>, at the call of the
  parent's collection of children. An uninitialized layer raises \<open>RuntimeError\<close>, as
  claimed.
\<close>

theorem get_layer_below_raises:
  "get_layer_below (\<lambda>l. None) family_stack (member_layer ''B'' ''root'' [''B1'', ''B2''])
     = Inl TypeError
   \<and> get_layer_below (\<lambda>l. None) family_stack (member_layer ''A'' ''root'' [''A1''])
       = Inl TypeError
   \<and> get_layer_below (\<lambda>l. None) family_stack default_layer = Inl RuntimeError"
  by code_simp

text \<open>
  So it is for every initialized layer whose parent is set and resolves, and for
  \<open>get_layer_above\<close> as well.
\<close>

lemma get_layer_below_with_parent:
  assumes "is_initialized self" and "ref_bool (parent self)"
    and "resolve_layer stk (parent self) = Inr (Some parent_layer)"
  shows "get_layer_below stack_get_layer_below stk self = Inl TypeError"
    and "get_layer_above stack_get_layer_above stk self = Inl TypeError"
  using assms by (simp_all add: get_layer_below_def get_layer_above_def collection_call_def)

text \<open>
  Behind the call, the test for the bottom of the siblings is one position off. On the
  list of the two references to \<open>A\<close> and \<open>B\<close>, the last statements of the method give
  \<open>None\<close> for \<open>B\<close>, at position 1, and for \<open>A\<close>, at position 0, the index \<open>-1\<close> reads the
  last sibling, \<open>B\<close>. The last statements of \<open>get_layer_above\<close> test
  \<open>idx+1 == len(siblings)\<close> and are right at their end.
\<close>

lemma sibling_below_index_test:
  "sibling_below family_stack [ref_to ''A'', ref_to ''B'']
       (member_layer ''B'' ''root'' [''B1'', ''B2'']) = Inr None
   \<and> sibling_below family_stack [ref_to ''A'', ref_to ''B''] (member_layer ''A'' ''root'' [''A1''])
       = Inr (Some (member_layer ''B'' ''root'' [''B1'', ''B2'']))
   \<and> sibling_above family_stack [ref_to ''A'', ref_to ''B''] (member_layer ''A'' ''root'' [''A1''])
       = Inr (Some (member_layer ''B'' ''root'' [''B1'', ''B2'']))
   \<and> sibling_above family_stack [ref_to ''A'', ref_to ''B'']
       (member_layer ''B'' ''root'' [''B1'', ''B2'']) = Inr None"
  by code_simp

subsection \<open>The depth of a layer\<close>

lemma stack_depth_ancestors:
  "has_ancestors stk self n \<Longrightarrow> n < 2 * limit \<Longrightarrow> stack_depth limit stk self = Inr (int n)"
proof (induction limit arbitrary: self n)
  case 0
  then show ?case by simp
next
  case (Suc limit)
  show ?case
  proof (cases n)
    case 0
    with Suc.prems show ?thesis by simp
  next
    case n: (Suc m)
    with Suc.prems obtain parent_layer where
      p: "ref_bool (parent self)" "resolve_layer stk (parent self) = Inr (Some parent_layer)"
        "has_ancestors stk parent_layer m"
      by (auto split: sum.splits option.splits)
    show ?thesis
    proof (cases m)
      case 0
      with p n show ?thesis by simp
    next
      case m: (Suc k)
      with p obtain grandparent where
        g: "ref_bool (parent parent_layer)"
          "resolve_layer stk (parent parent_layer) = Inr (Some grandparent)"
          "has_ancestors stk grandparent k"
        by (auto split: sum.splits option.splits)
      from Suc.prems n m have "k < 2 * limit" by simp
      from Suc.IH [OF g(3) this] p g n m show ?thesis by simp
    qed
  qed
qed

lemma stack_depth_long_chain:
  "has_parent_chain stk self (2 * limit) \<Longrightarrow> stack_depth limit stk self = Inl RecursionError"
proof (induction limit arbitrary: self)
  case 0
  then show ?case by simp
next
  case (Suc limit)
  then have "has_parent_chain stk self (Suc (Suc (2 * limit)))" by simp
  then obtain parent_layer where
    p: "ref_bool (parent self)" "resolve_layer stk (parent self) = Inr (Some parent_layer)"
      "has_parent_chain stk parent_layer (Suc (2 * limit))"
    by (auto split: sum.splits option.splits)
  then obtain grandparent where
    g: "ref_bool (parent parent_layer)"
      "resolve_layer stk (parent parent_layer) = Inr (Some grandparent)"
      "has_parent_chain stk grandparent (2 * limit)"
    by (auto split: sum.splits option.splits)
  from Suc.IH [OF g(3)] p g show ?case by simp
qed

text \<open>
  Claim C3, amended. \<open>stack_depth\<close> of a layer with \<open>n\<close> ancestors is \<open>n\<close> (0 without
  parent, 1 for one ancestor, and so on) whenever \<open>n\<close> is less than twice the number of
  nested calls the interpreter permits; there is no bound of 100 hops. When the parent
  links can be followed for twice that number of hops, as they can on a cycle, the call
  raises the interpreter's \<open>RecursionError\<close>.
\<close>

theorem stack_depth_counts_ancestors:
  "(has_ancestors stk self n \<and> n < 2 * limit \<longrightarrow> stack_depth limit stk self = Inr (int n))
   \<and> (has_parent_chain stk self (2 * limit) \<longrightarrow> stack_depth limit stk self = Inl RecursionError)"
  using stack_depth_ancestors stack_depth_long_chain by blast

theorem stack_depth_counts_ancestors_witness:
  "has_ancestors family_stack (member_layer ''A1'' ''A'' []) 2 \<and> (2::nat) < 2 * 5
   \<and> stack_depth 5 family_stack (member_layer ''A1'' ''A'' []) = Inr 2
   \<and> has_parent_chain cyclic_stack (member_layer ''X'' ''Y'' [''Y'']) (2 * 3)
   \<and> stack_depth 3 cyclic_stack (member_layer ''X'' ''Y'' [''Y'']) = Inl RecursionError"
proof -
  have a: "has_ancestors family_stack (member_layer ''A1'' ''A'' []) 2"
    by code_simp
  have c: "has_parent_chain cyclic_stack (member_layer ''X'' ''Y'' [''Y'']) (2 * 3)"
    by code_simp
  from stack_depth_counts_ancestors [of family_stack "member_layer ''A1'' ''A'' []" 2 5]
    stack_depth_counts_ancestors [of cyclic_stack "member_layer ''X'' ''Y'' [''Y'']" _ 3] a c
  show ?thesis by simp
qed

subsection \<open>A chain of more than 100 ancestors\<close>

lemma decimal_inject: "decimal a = decimal b \<Longrightarrow> a = b"
  by (metis digits_value_decimal)

lemma find_layer_chain:
  "a \<le> j \<Longrightarrow> j < b \<Longrightarrow>
   find_layer (chain_identifier j) (map chain_layer [a..<b]) k = Some (k + (j - a), chain_layer j)"
proof (induction "j - a" arbitrary: a k)
  case 0
  then have "a = j" by simp
  with 0 show ?case
    by (simp add: upt_conv_Cons chain_layer_def)
next
  case (Suc d)
  then have "a < j" "a < b" by simp_all
  then have neq: "identifier (chain_layer a) \<noteq> chain_identifier j"
    by (auto simp: chain_layer_def chain_identifier_def dest: decimal_inject)
  have "find_layer (chain_identifier j) (map chain_layer [Suc a..<b]) (Suc k)
      = Some (Suc k + (j - Suc a), chain_layer j)"
    using Suc \<open>a < j\<close> by (intro Suc.hyps(1)) simp_all
  with neq \<open>a < b\<close> \<open>a < j\<close> show ?case
    by (simp add: upt_conv_Cons)
qed

lemma resolve_layer_chain:
  "j \<le> n \<Longrightarrow> resolve_layer (chain_stack n) (ref_to (chain_identifier j)) = Inr (Some (chain_layer j))"
  using find_layer_chain [of 0 j "Suc n" 0]
  by (simp add: resolve_layer_def resolve_def get_layer_by_id_def chain_stack_def ref_to_def
      chain_identifier_def)

lemma chain_has_ancestors: "k \<le> n \<Longrightarrow> has_ancestors (chain_stack n) (chain_layer k) k"
proof (induction k)
  case 0
  show ?case by (simp add: chain_layer_def ref_bool_def empty_ref_def)
next
  case (Suc k)
  then have "has_ancestors (chain_stack n) (chain_layer k) k" by simp
  moreover have "parent (chain_layer (Suc k)) = ref_to (chain_identifier k)"
    by (simp add: chain_layer_def)
  moreover have "ref_bool (ref_to (chain_identifier k))"
    by (simp add: ref_bool_def ref_to_def chain_identifier_def)
  moreover have "resolve_layer (chain_stack n) (ref_to (chain_identifier k)) = Inr (Some (chain_layer k))"
    using Suc.prems by (intro resolve_layer_chain) simp
  ultimately show ?case by simp
qed

text \<open>
  The claim as first stated puts a fault at more than 100 ancestors. The last layer of a
  chain of 102 layers has 101 ancestors, and \<open>stack_depth\<close> returns 101 under a recursion
  limit of 1000 nested calls.
\<close>

theorem stack_depth_beyond_100:
  "has_ancestors (chain_stack 101) (chain_layer 101) 101
   \<and> stack_depth 1000 (chain_stack 101) (chain_layer 101) = Inr 101"
proof -
  have a: "has_ancestors (chain_stack 101) (chain_layer 101) 101"
    by (rule chain_has_ancestors) simp
  from stack_depth_ancestors [OF a, of 1000] a show ?thesis by simp
qed

subsection \<open>The descendents of a layer\<close>

text \<open>
  The hierarchy below a layer as a tree, and the list the documentation of the query
  defines on it: for each child in order, the descendents of the child, then the child.
\<close>

datatype layer_tree = Node (root: material_layer) (subtrees: "layer_tree list")

fun descendents_of_tree :: "layer_tree \<Rightarrow> material_layer list" where
  "descendents_of_tree (Node l ts) = concat (map (\<lambda>t. descendents_of_tree t @ [root t]) ts)"

text \<open>
  The stack holds the tree: the child references of each layer of the tree resolve, in
  order, to the roots of its subtrees.
\<close>

fun represents :: "layer_stack \<Rightarrow> layer_tree \<Rightarrow> bool" where
  "represents stk (Node l ts) =
     (map (resolve_layer stk) (children l) = map (\<lambda>t. Inr (Some (root t))) ts
      \<and> (\<forall>t\<in>set ts. represents stk t))"

fun height :: "layer_tree \<Rightarrow> nat" where
  "height (Node l ts) = Suc (Max (insert 0 (height ` set ts)))"

definition family_tree :: layer_tree where
  "family_tree =
     Node (member_layer ''root'' [] [''A'', ''B''])
       [Node (member_layer ''A'' ''root'' [''A1'']) [Node (member_layer ''A1'' ''A'' []) []],
        Node (member_layer ''B'' ''root'' [''B1'', ''B2''])
          [Node (member_layer ''B1'' ''B'' []) [], Node (member_layer ''B2'' ''B'' []) []]]"

lemma height_subtree: "t \<in> set ts \<Longrightarrow> height t \<le> Max (insert 0 (height ` set ts))"
  by (intro Max_ge) auto

text \<open>
  Claim C4. For a layer whose children, and their children in turn, all resolve, the
  query returns the list defined recursively on the hierarchy: for each child in child
  order, the descendents of that child, then the child. This holds whenever the
  interpreter permits as many nested calls as the hierarchy has levels.
\<close>

theorem descendents_depth_first:
  "represents stk t \<Longrightarrow> height t \<le> limit \<Longrightarrow>
   descendents limit stk (root t) = Inr (descendents_of_tree t)"
proof (induction limit arbitrary: t)
  case 0
  then show ?case by (cases t) simp
next
  case (Suc limit)
  obtain l ts where t: "t = Node l ts" by (cases t)
  have sub: "represents stk t' \<and> height t' \<le> limit" if "t' \<in> set ts" for t'
    using Suc.prems that height_subtree [OF that] by (simp add: t)
  have loop: "descendents_loop limit stk refs acc
      = Inr (acc @ concat (map (\<lambda>t. descendents_of_tree t @ [root t]) ts'))"
    if "map (resolve_layer stk) refs = map (\<lambda>t. Inr (Some (root t))) ts'" "set ts' \<subseteq> set ts"
    for refs acc ts'
    using that
  proof (induction ts' arbitrary: refs acc)
    case Nil
    then show ?case by simp
  next
    case (Cons t' ts'')
    then obtain r rs where refs: "refs = r # rs"
      and r: "resolve_layer stk r = Inr (Some (root t'))"
      and rs: "map (resolve_layer stk) rs = map (\<lambda>t. Inr (Some (root t))) ts''"
      by (cases refs) auto
    from Cons.prems have t': "t' \<in> set ts" and rest: "set ts'' \<subseteq> set ts" by auto
    note IH = Cons.IH [OF rs rest]
    show ?case
    proof (cases "children (root t') = []")
      case True
      from sub [OF t'] have "represents stk t'" by simp
      with True have "subtrees t' = []" by (cases t') simp
      then have "descendents_of_tree t' = []" by (cases t') simp
      with True r refs IH [of "acc @ [root t']"] show ?thesis by simp
    next
      case False
      from sub [OF t'] have "descendents limit stk (root t') = Inr (descendents_of_tree t')"
        by (intro Suc.IH) simp_all
      with False r refs IH [of "acc @ descendents_of_tree t' @ [root t']"] show ?thesis by simp
    qed
  qed
  from Suc.prems have "map (resolve_layer stk) (children l) = map (\<lambda>t. Inr (Some (root t))) ts"
    by (simp add: t)
  from loop [OF this, of "[]"] show ?case by (simp add: t)
qed

theorem descendents_depth_first_witness:
  "represents family_stack family_tree \<and> height family_tree \<le> 3
   \<and> descendents 3 family_stack (member_layer ''root'' [] [''A'', ''B''])
       = Inr [member_layer ''A1'' ''A'' [], member_layer ''A'' ''root'' [''A1''],
              member_layer ''B1'' ''B'' [], member_layer ''B2'' ''B'' [],
              member_layer ''B'' ''root'' [''B1'', ''B2'']]"
proof -
  have r: "represents family_stack family_tree"
    by code_simp
  have h: "height family_tree \<le> 3"
    by (simp add: family_tree_def)
  have d: "descendents_of_tree family_tree
       = [member_layer ''A1'' ''A'' [], member_layer ''A'' ''root'' [''A1''],
          member_layer ''B1'' ''B'' [], member_layer ''B2'' ''B'' [],
          member_layer ''B'' ''root'' [''B1'', ''B2'']]"
    by (simp add: family_tree_def)
  have root: "root family_tree = member_layer ''root'' [] [''A'', ''B'']"
    by (simp add: family_tree_def)
  from descendents_depth_first [OF r h] r h show ?thesis
    by (simp add: d root)
qed

end
